theory Spec2Isabelle
  imports Complex_Main "HOL-Library.Word"
begin

section \<open>AlCaRecoTriggerBitsRcdUpdate: updating the trigger-bit map\<close>

text \<open>
  The module of \<^verbatim>\<open>CondTools/HLT/src/AlCaRecoTriggerBitsRcdUpdate.cc\<close> edits a
  \<^verbatim>\<open>std::map<std::string, std::string>\<close> and hands it to the database service.
  The map is a partial function from strings to strings. The member functions take the
  map by reference and change it in place, so each model returns the map as it stands
  when the function is left, also when it is left by a \<^verbatim>\<open>throw\<close>.
  A \<^verbatim>\<open>cms::Exception\<close> is a value of \<open>cms_exception\<close>: the category, and the
  key that the message names. The messages sent to the message logger are collected in
  a list, in the order they are sent.
\<close>

type_synonym TriggerMap = "string \<rightharpoonup> string"

datatype cms_exception =
    BadConfig_CannotRemoveKey string
  | BadConfig_ListNameAlreadyInMap string
  | NotAvailable_PoolDBOutputService

datatype log_message =
    LogWarning_WritingOnlyOnce
  | LogWarning_CannotReplaceKey string string
  | LogInfo_Uploading
  | LogInfo_Done "32 word" "32 word"

text \<open>
  The parameter sets of \<^verbatim>\<open>triggerListsAdd\<close> and \<^verbatim>\<open>alcarecoToReplace\<close> are taken
  to hold the parameters that the code reads from them.
\<close>

record TriggerListPSet =
  listName :: string
  hltPaths :: "string list"

record ReplacePSet =
  oldKey :: string
  newKey :: string

record UpdateConfig =
  firstRunIOV :: "32 word"
  lastRunIOV :: "32 word"
  startEmpty :: bool
  listNamesRemove :: "string list"
  triggerListsAdd :: "TriggerListPSet list"
  alcarecoReplace :: "ReplacePSet list"

text \<open>
  What \<^verbatim>\<open>analyze\<close> reads and changes outside its arguments: the call counter
  \<^verbatim>\<open>nEventCalls_\<close> (an \<^verbatim>\<open>unsigned int\<close>, 32 bits, whose increment wraps), whether
  the \<^verbatim>\<open>PoolDBOutputService\<close> is available, every \<^verbatim>\<open>writeOneIOV\<close> call made so
  far (payload, first run, record name), and the messages logged so far.
\<close>

record UpdateState =
  nEventCalls :: "32 word"
  poolDbAvailable :: bool
  dbWrites :: "(TriggerMap \<times> 32 word \<times> string) list"
  messageLog :: "log_message list"

fun removeKeysFromMap :: "string list \<Rightarrow> TriggerMap \<Rightarrow> (cms_exception + bool) \<times> TriggerMap" where
  "removeKeysFromMap [] triggerMap = (Inr True, triggerMap)"
| "removeKeysFromMap (iKey # keys) triggerMap =
     (if triggerMap iKey \<noteq> None
      then removeKeysFromMap keys (triggerMap(iKey := None))
      else (Inl (BadConfig_CannotRemoveKey iKey), triggerMap))"

fun replaceKeyPairs ::
  "(string \<times> string) list \<Rightarrow> TriggerMap \<Rightarrow> log_message list \<Rightarrow> bool \<times> TriggerMap \<times> log_message list" where
  "replaceKeyPairs [] triggerMap msgs = (True, triggerMap, msgs)"
| "replaceKeyPairs (iKey # keyPairs) triggerMap msgs =
     (case triggerMap (fst iKey) of
        Some bitsToReplace \<Rightarrow>
          replaceKeyPairs keyPairs ((triggerMap(fst iKey := None))(snd iKey \<mapsto> bitsToReplace)) msgs
      | None \<Rightarrow>
          (False, triggerMap, msgs @ [LogWarning_CannotReplaceKey (fst iKey) (snd iKey)]))"

definition replaceKeysFromMap ::
  "ReplacePSet list \<Rightarrow> TriggerMap \<Rightarrow> log_message list \<Rightarrow> bool \<times> TriggerMap \<times> log_message list" where
  "replaceKeysFromMap alcarecoReplace' triggerMap msgs =
     (let keyPairs = map (\<lambda>iSet. (oldKey iSet, newKey iSet)) alcarecoReplace'
      in replaceKeyPairs keyPairs triggerMap msgs)"

text \<open>
  \<^verbatim>\<open>AlCaRecoTriggerBits::compose\<close>, which merges the paths into one string, is not part
  of this file: it is the parameter \<open>compose\<close>.
\<close>

fun addTriggerLists ::
  "(string list \<Rightarrow> string) \<Rightarrow> TriggerListPSet list \<Rightarrow> TriggerMap \<Rightarrow> (cms_exception + bool) \<times> TriggerMap" where
  "addTriggerLists compose [] triggerMap = (Inr True, triggerMap)"
| "addTriggerLists compose (iSet # sets) triggerMap =
     (let mergedPaths = compose (hltPaths iSet);
          filter' = listName iSet
      in if triggerMap filter' \<noteq> None
         then (Inl (BadConfig_ListNameAlreadyInMap filter'), triggerMap)
         else addTriggerLists compose sets (triggerMap(filter' \<mapsto> mergedPaths)))"

definition writeBitsToDB :: "UpdateConfig \<Rightarrow> TriggerMap \<Rightarrow> UpdateState \<Rightarrow> cms_exception option \<times> UpdateState" where
  "writeBitsToDB cfg bitsToWrite s =
     (let s1 = s\<lparr>messageLog := messageLog s @ [LogInfo_Uploading]\<rparr>
      in if \<not> poolDbAvailable s1 then (Some NotAvailable_PoolDBOutputService, s1)
         else
           let s2 = s1\<lparr>dbWrites := dbWrites s1 @ [(bitsToWrite, firstRunIOV cfg, ''AlCaRecoTriggerBitsRcd'')]\<rparr>
           in (None, s2\<lparr>messageLog := messageLog s2 @ [LogInfo_Done (firstRunIOV cfg) (lastRunIOV cfg)]\<rparr>))"

text \<open>
  \<open>analyze compose cfg setupBits s\<close>: one call of \<^verbatim>\<open>analyze\<close>, where \<open>setupBits\<close> is
  the map of the record that \<^verbatim>\<open>iSetup.getData(triggerBitsToken_)\<close> yields. The result
  is the exception that leaves the call, if any, and the state after the call.
\<close>

definition analyze ::
  "(string list \<Rightarrow> string) \<Rightarrow> UpdateConfig \<Rightarrow> TriggerMap \<Rightarrow> UpdateState \<Rightarrow> cms_exception option \<times> UpdateState" where
  "analyze compose cfg setupBits s =
     (let calls = nEventCalls s;
          s1 = s\<lparr>nEventCalls := calls + 1\<rparr>
      in if 0 < calls
         then (None, s1\<lparr>messageLog := messageLog s1 @ [LogWarning_WritingOnlyOnce]\<rparr>)
         else
           let bitsToWrite = (if startEmpty cfg then Map.empty else setupBits)
           in case removeKeysFromMap (listNamesRemove cfg) bitsToWrite of
                (Inl e, _) \<Rightarrow> (Some e, s1)
              | (Inr _, removed) \<Rightarrow>
                  (case addTriggerLists compose (triggerListsAdd cfg) removed of
                     (Inl e, _) \<Rightarrow> (Some e, s1)
                   | (Inr _, added) \<Rightarrow>
                       (case replaceKeysFromMap (alcarecoReplace cfg) added (messageLog s1) of
                          (_, replaced, msgs) \<Rightarrow> writeBitsToDB cfg replaced (s1\<lparr>messageLog := msgs\<rparr>))))"

text \<open>
  A sequence of \<^verbatim>\<open>analyze\<close> calls on one instance, one per event, each with the
  record of its event setup. The calls go on whatever the outcome of the earlier ones.
\<close>

fun analyzeCalls :: "(string list \<Rightarrow> string) \<Rightarrow> UpdateConfig \<Rightarrow> TriggerMap list \<Rightarrow> UpdateState \<Rightarrow> UpdateState" where
  "analyzeCalls compose cfg [] s = s"
| "analyzeCalls compose cfg (setupBits # rest) s =
     analyzeCalls compose cfg rest (snd (analyze compose cfg setupBits s))"

text \<open>The state of a module right after its constructor has run.\<close>

definition constructed :: "bool \<Rightarrow> UpdateState" where
  "constructed available =
     \<lparr>nEventCalls = 0, poolDbAvailable = available, dbWrites = [], messageLog = []\<rparr>"

subsection \<open>The three edits as the specification words them\<close>

text \<open>
  Erasing each listed key, adding each list name with its merged paths, and moving the
  value of each old key to its new key, each as one pass over the configured list with
  no check. They are compared with the code above.
\<close>

definition eraseKeys :: "string list \<Rightarrow> TriggerMap \<Rightarrow> TriggerMap" where
  "eraseKeys keys triggerMap = triggerMap |` (- set keys)"

definition insertLists :: "(string list \<Rightarrow> string) \<Rightarrow> TriggerListPSet list \<Rightarrow> TriggerMap \<Rightarrow> TriggerMap" where
  "insertLists compose sets triggerMap =
     fold (\<lambda>iSet m. m(listName iSet \<mapsto> compose (hltPaths iSet))) sets triggerMap"

definition renameKeys :: "ReplacePSet list \<Rightarrow> TriggerMap \<Rightarrow> TriggerMap" where
  "renameKeys sets triggerMap =
     fold (\<lambda>iSet m. (m(oldKey iSet := None))(newKey iSet := m (oldKey iSet))) sets triggerMap"

text \<open>The map that \<^verbatim>\<open>analyze\<close> starts from, and the name of the record it writes.\<close>

definition startBits :: "UpdateConfig \<Rightarrow> TriggerMap \<Rightarrow> TriggerMap" where
  "startBits cfg setupBits = (if startEmpty cfg then Map.empty else setupBits)"

definition recordName :: string where
  "recordName = ''AlCaRecoTriggerBitsRcd''"

section \<open>HLTDisplacedEgammaFilter: the cuts on the candidates\<close>

text \<open>
  The second part of \<^verbatim>\<open>src/unnamed/part_000\<close> is the filter module. Its numbers
  (\<^verbatim>\<open>double\<close> and \<^verbatim>\<open>float\<close>) are only compared with each other, a \<^verbatim>\<open>float\<close>
  being widened to \<^verbatim>\<open>double\<close> first, which changes no value.

  The shape moments, the seed time and their bounds are values of \<open>fp\<close>: a real, one of
  the two infinities, or NaN. The code skips a candidate on \<^verbatim>\<open>x < lo || x > hi\<close>, and
  a comparison with a NaN operand is false, so that the test and the complement of the
  interval differ at NaN; \<open>fp_less\<close> is the comparison \<^verbatim>\<open><\<close> of the code (and
  \<^verbatim>\<open>a > b\<close> is \<open>fp_less b a\<close>), \<open>fp_le\<close> is \<^verbatim>\<open><=\<close>.
  The eta of a candidate, the momenta of a track and the distance \<^verbatim>\<open>DeltaR\<close> are
  reals. The \<^verbatim>\<open>int\<close> counters and thresholds are 32-bit words, read as two's
  complement by the signed comparisons.

  The data of the event that the filter reads through handles is a record. A reference
  to a candidate is modelled by the candidate it refers to, with the seed cluster of its
  supercluster as a field; the type \<open>'c\<close> of clusters is left open, since clusters are
  only passed on to \<^verbatim>\<open>EcalClusterTools\<close>.
\<close>

datatype fp = NaN | NegInf | Finite real | PosInf

fun fp_less :: "fp \<Rightarrow> fp \<Rightarrow> bool" where
  "fp_less NaN y = False"
| "fp_less x NaN = False"
| "fp_less NegInf NegInf = False"
| "fp_less NegInf y = True"
| "fp_less (Finite x) (Finite y) = (x < y)"
| "fp_less (Finite x) PosInf = True"
| "fp_less (Finite x) NegInf = False"
| "fp_less PosInf y = False"

fun fp_le :: "fp \<Rightarrow> fp \<Rightarrow> bool" where
  "fp_le NaN y = False"
| "fp_le x NaN = False"
| "fp_le NegInf y = True"
| "fp_le (Finite x) (Finite y) = (x \<le> y)"
| "fp_le (Finite x) PosInf = True"
| "fp_le (Finite x) NegInf = False"
| "fp_le PosInf PosInf = True"
| "fp_le PosInf y = False"

type_synonym DetId = "32 word"

record LorentzVector =
  Px :: real
  Py :: real
  Pz :: real
  E :: real

record Track =
  pt :: real
  px :: real
  py :: real
  pz :: real
  p :: real

record EcalRecHit =
  time :: fp

text \<open>
  A collection of hits is looked up by crystal: \<open>hits\<close>. When the collection has no hit
  with the given id, \<^verbatim>\<open>rechits->find(id)\<close> yields the end iterator, and the code reads
  \<^verbatim>\<open>seedRH->time()\<close> through it without a check. What that read yields is not fixed by
  the language; it is the field \<open>pastEnd\<close> of the collection, about which nothing is
  assumed. \<open>derefFind\<close> is the hit that the code reads after \<^verbatim>\<open>find\<close>.
\<close>

record EcalRecHitCollection =
  hits :: "DetId \<rightharpoonup> EcalRecHit"
  pastEnd :: EcalRecHit

definition derefFind :: "EcalRecHitCollection \<Rightarrow> DetId \<Rightarrow> EcalRecHit" where
  "derefFind rechits crystal =
     (case hits rechits crystal of None \<Rightarrow> pastEnd rechits | Some rh \<Rightarrow> rh)"

record Cluster2ndMoments =
  sMaj :: fp
  sMin :: fp
  alpha :: fp

record 'c RecoEcalCandidate =
  eta :: real
  p4 :: LorentzVector
  superCluster_seed :: 'c

datatype TriggerObjectType = TriggerPhoton | TriggerCluster

text \<open>
  The functions of other packages that the filter calls are parameters:
  \<^verbatim>\<open>EcalClusterTools::cluster2ndMoments\<close>, \<^verbatim>\<open>EcalClusterTools::getMaximum\<close> (the
  crystal of a cluster with the highest energy, and that energy) and
  \<^verbatim>\<open>ROOT::Math::VectorUtil::DeltaR\<close>.
\<close>

record 'c Externals =
  cluster2ndMoments :: "'c \<Rightarrow> EcalRecHitCollection \<Rightarrow> Cluster2ndMoments"
  getMaximum :: "'c \<Rightarrow> EcalRecHitCollection \<Rightarrow> DetId \<times> fp"
  DeltaR :: "LorentzVector \<Rightarrow> LorentzVector \<Rightarrow> real"

record FilterConfig =
  saveTags :: bool
  l1EGTag :: string
  ncandcut :: "32 word"
  trkPtCut :: real
  trkdRCut :: real
  maxTrkCut :: "32 word"
  EBOnly :: bool
  sMin_min :: fp
  sMin_max :: fp
  sMaj_min :: fp
  sMaj_max :: fp
  seedTimeMin :: fp
  seedTimeMax :: fp

text \<open>
  \<open>PrevFilterOutput ev id\<close> is the list of references that
  \<^verbatim>\<open>PrevFilterOutput->getObjects(id, recoecalcands)\<close> leaves in \<^verbatim>\<open>recoecalcands\<close>.
\<close>

record 'c Event =
  PrevFilterOutput :: "TriggerObjectType \<Rightarrow> 'c RecoEcalCandidate list"
  tracks :: "Track list"
  rechitsEB :: EcalRecHitCollection
  rechitsEE :: EcalRecHitCollection

record 'c TriggerFilterObjectWithRefs =
  collectionTags :: "string list"
  objects :: "(TriggerObjectType \<times> 'c RecoEcalCandidate) list"

text \<open>The literal \<^verbatim>\<open>1.479\<close> of the two comparisons on \<^verbatim>\<open>std::abs(ref->eta())\<close>.\<close>

definition etaEB :: real where
  "etaEB = 1.479"

text \<open>
  The loop over the tracks, from the value of \<^verbatim>\<open>nTrk\<close> at its start to the value at
  its end; \<^verbatim>\<open>continue\<close> goes on with the next track and \<^verbatim>\<open>break\<close> leaves the loop.
\<close>

fun trackLoop :: "FilterConfig \<Rightarrow> 'c Externals \<Rightarrow> 'c RecoEcalCandidate \<Rightarrow> Track list \<Rightarrow> 32 word \<Rightarrow> 32 word" where
  "trackLoop cfg ext ref [] nTrk = nTrk"
| "trackLoop cfg ext ref (it # rest) nTrk =
     (if pt it < trkPtCut cfg then trackLoop cfg ext ref rest nTrk
      else
        let trkP4 = \<lparr>Px = px it, Py = py it, Pz = pz it, E = p it\<rparr>;
            dR = DeltaR ext trkP4 (p4 ref);
            nTrk' = (if dR < trkdRCut cfg then nTrk + 1 else nTrk)
        in if word_sless (maxTrkCut cfg) nTrk' then nTrk'
           else trackLoop cfg ext ref rest nTrk')"

text \<open>
  The body of the loop over the candidates, up to the point where the candidate is
  counted: which \<^verbatim>\<open>continue\<close> is taken, or that none is.
\<close>

datatype cut_outcome =
  FailedEta | FailedSMin | FailedSMaj | FailedSeedTime | FailedTrackVeto | PassedAllCuts

definition candidateCuts ::
  "FilterConfig \<Rightarrow> 'c Externals \<Rightarrow> 'c Event \<Rightarrow> 'c RecoEcalCandidate \<Rightarrow> cut_outcome" where
  "candidateCuts cfg ext ev ref =
     (if EBOnly cfg \<and> \<bar>eta ref\<bar> \<ge> etaEB then FailedEta
      else
        let SCseed = superCluster_seed ref;
            rechits = (if \<bar>eta ref\<bar> < etaEB then rechitsEB ev else rechitsEE ev);
            moments = cluster2ndMoments ext SCseed rechits;
            sMin' = sMin moments;
            sMaj' = sMaj moments
        in if fp_less sMin' (sMin_min cfg) \<or> fp_less (sMin_max cfg) sMin' then FailedSMin
           else if fp_less sMaj' (sMaj_min cfg) \<or> fp_less (sMaj_max cfg) sMaj' then FailedSMaj
           else
             let maxRH = getMaximum ext SCseed rechits;
                 seedCrystalId = fst maxRH;
                 seedRH = derefFind rechits seedCrystalId;
                 seedTime = time seedRH
             in if fp_less seedTime (seedTimeMin cfg) \<or> fp_less (seedTimeMax cfg) seedTime
                then FailedSeedTime
                else
                  let nTrk = trackLoop cfg ext ref (tracks ev) 0
                  in if word_sless (maxTrkCut cfg) nTrk then FailedTrackVeto
                     else PassedAllCuts)"



subsection \<open>The cuts one by one\<close>

text \<open>
  What the code reads for a candidate, and each cut on its own, with no order among the
  cuts: the candidate is kept by a cut when the test before the \<^verbatim>\<open>continue\<close> of that
  cut is false. They are compared with the body of the loop above.
\<close>

definition rechitsOf :: "'c Event \<Rightarrow> 'c RecoEcalCandidate \<Rightarrow> EcalRecHitCollection" where
  "rechitsOf ev ref = (if \<bar>eta ref\<bar> < etaEB then rechitsEB ev else rechitsEE ev)"

definition momentsOf :: "'c Externals \<Rightarrow> 'c Event \<Rightarrow> 'c RecoEcalCandidate \<Rightarrow> Cluster2ndMoments" where
  "momentsOf ext ev ref = cluster2ndMoments ext (superCluster_seed ref) (rechitsOf ev ref)"

definition seedCrystal :: "'c Externals \<Rightarrow> 'c Event \<Rightarrow> 'c RecoEcalCandidate \<Rightarrow> DetId" where
  "seedCrystal ext ev ref = fst (getMaximum ext (superCluster_seed ref) (rechitsOf ev ref))"

definition seedRecHit :: "'c Externals \<Rightarrow> 'c Event \<Rightarrow> 'c RecoEcalCandidate \<Rightarrow> EcalRecHit" where
  "seedRecHit ext ev ref = derefFind (rechitsOf ev ref) (seedCrystal ext ev ref)"

definition etaCut :: "FilterConfig \<Rightarrow> 'c RecoEcalCandidate \<Rightarrow> bool" where
  "etaCut cfg ref = (\<not> (EBOnly cfg \<and> etaEB \<le> \<bar>eta ref\<bar>))"

definition sMinCut :: "FilterConfig \<Rightarrow> 'c Externals \<Rightarrow> 'c Event \<Rightarrow> 'c RecoEcalCandidate \<Rightarrow> bool" where
  "sMinCut cfg ext ev ref =
     (\<not> (fp_less (sMin (momentsOf ext ev ref)) (sMin_min cfg) \<or>
         fp_less (sMin_max cfg) (sMin (momentsOf ext ev ref))))"

definition sMajCut :: "FilterConfig \<Rightarrow> 'c Externals \<Rightarrow> 'c Event \<Rightarrow> 'c RecoEcalCandidate \<Rightarrow> bool" where
  "sMajCut cfg ext ev ref =
     (\<not> (fp_less (sMaj (momentsOf ext ev ref)) (sMaj_min cfg) \<or>
         fp_less (sMaj_max cfg) (sMaj (momentsOf ext ev ref))))"

definition seedTimeCut :: "FilterConfig \<Rightarrow> 'c Externals \<Rightarrow> 'c Event \<Rightarrow> 'c RecoEcalCandidate \<Rightarrow> bool" where
  "seedTimeCut cfg ext ev ref =
     (\<not> (fp_less (time (seedRecHit ext ev ref)) (seedTimeMin cfg) \<or>
         fp_less (seedTimeMax cfg) (time (seedRecHit ext ev ref))))"

definition nearbyTracks :: "FilterConfig \<Rightarrow> 'c Externals \<Rightarrow> 'c RecoEcalCandidate \<Rightarrow> Track list \<Rightarrow> Track list" where
  "nearbyTracks cfg ext ref trks =
     filter (\<lambda>it. trkPtCut cfg \<le> pt it \<and>
                  DeltaR ext \<lparr>Px = px it, Py = py it, Pz = pz it, E = p it\<rparr> (p4 ref) < trkdRCut cfg) trks"

definition trackVeto :: "FilterConfig \<Rightarrow> 'c Externals \<Rightarrow> 'c Event \<Rightarrow> 'c RecoEcalCandidate \<Rightarrow> bool" where
  "trackVeto cfg ext ev ref =
     (sint (maxTrkCut cfg) < int (length (nearbyTracks cfg ext ref (tracks ev))))"

definition passesAllCuts :: "FilterConfig \<Rightarrow> 'c Externals \<Rightarrow> 'c Event \<Rightarrow> 'c RecoEcalCandidate \<Rightarrow> bool" where
  "passesAllCuts cfg ext ev ref =
     (etaCut cfg ref \<and> sMinCut cfg ext ev ref \<and> sMajCut cfg ext ev ref \<and>
      seedTimeCut cfg ext ev ref \<and> \<not> trackVeto cfg ext ev ref)"

text \<open>A candidate reaches the timing cut when it is kept by the eta and shape cuts.\<close>

definition reachesSeedTime :: "FilterConfig \<Rightarrow> 'c Externals \<Rightarrow> 'c Event \<Rightarrow> 'c RecoEcalCandidate \<Rightarrow> bool" where
  "reachesSeedTime cfg ext ev ref = (etaCut cfg ref \<and> sMinCut cfg ext ev ref \<and> sMajCut cfg ext ev ref)"

subsection \<open>The cuts as the specification words them\<close>

text \<open>
  The shape cuts and the timing cut as intervals: the moment lies in
  \<^verbatim>\<open>[sMin_min, sMin_max]\<close>, and so on. A candidate is within all windows when it is kept
  by the eta cut, its two moments and its seed time lie in their intervals, and the
  track veto does not reject it. \<open>numbersOnly\<close> says that no moment, time or bound read
  for a candidate is NaN.
\<close>

definition sMinInWindow :: "FilterConfig \<Rightarrow> 'c Externals \<Rightarrow> 'c Event \<Rightarrow> 'c RecoEcalCandidate \<Rightarrow> bool" where
  "sMinInWindow cfg ext ev ref =
     (fp_le (sMin_min cfg) (sMin (momentsOf ext ev ref)) \<and>
      fp_le (sMin (momentsOf ext ev ref)) (sMin_max cfg))"

definition sMajInWindow :: "FilterConfig \<Rightarrow> 'c Externals \<Rightarrow> 'c Event \<Rightarrow> 'c RecoEcalCandidate \<Rightarrow> bool" where
  "sMajInWindow cfg ext ev ref =
     (fp_le (sMaj_min cfg) (sMaj (momentsOf ext ev ref)) \<and>
      fp_le (sMaj (momentsOf ext ev ref)) (sMaj_max cfg))"

definition seedTimeInWindow :: "FilterConfig \<Rightarrow> 'c Externals \<Rightarrow> 'c Event \<Rightarrow> 'c RecoEcalCandidate \<Rightarrow> bool" where
  "seedTimeInWindow cfg ext ev ref =
     (fp_le (seedTimeMin cfg) (time (seedRecHit ext ev ref)) \<and>
      fp_le (time (seedRecHit ext ev ref)) (seedTimeMax cfg))"

definition withinAllWindows :: "FilterConfig \<Rightarrow> 'c Externals \<Rightarrow> 'c Event \<Rightarrow> 'c RecoEcalCandidate \<Rightarrow> bool" where
  "withinAllWindows cfg ext ev ref =
     (etaCut cfg ref \<and> sMinInWindow cfg ext ev ref \<and> sMajInWindow cfg ext ev ref \<and>
      seedTimeInWindow cfg ext ev ref \<and> \<not> trackVeto cfg ext ev ref)"

definition numbersOnly :: "FilterConfig \<Rightarrow> 'c Externals \<Rightarrow> 'c Event \<Rightarrow> 'c RecoEcalCandidate \<Rightarrow> bool" where
  "numbersOnly cfg ext ev ref =
     (sMin (momentsOf ext ev ref) \<noteq> NaN \<and> sMaj (momentsOf ext ev ref) \<noteq> NaN \<and>
      time (seedRecHit ext ev ref) \<noteq> NaN \<and>
      sMin_min cfg \<noteq> NaN \<and> sMin_max cfg \<noteq> NaN \<and> sMaj_min cfg \<noteq> NaN \<and> sMaj_max cfg \<noteq> NaN \<and>
      seedTimeMin cfg \<noteq> NaN \<and> seedTimeMax cfg \<noteq> NaN)"


subsection \<open>A configuration and events to run the filter on\<close>

text \<open>
  The configuration that \<^verbatim>\<open>fillDescriptions\<close> gives as default, with the tags saved.
  The event has no cluster objects and two photon objects, one in the endcap and one in
  the barrel, a cluster being named by the number of its seed crystal; the endcap hit is
  in time and the barrel hit is late; of the two tracks one is far from both candidates
  and the other is below the transverse-momentum threshold. In \<open>nanMomentTools\<close> the minor
  moment of every cluster is NaN; in \<open>nanTimeEvent\<close> the only candidate is the endcap one
  and the time of its seed hit is NaN.
\<close>

definition defaultConfig :: FilterConfig where
  "defaultConfig =
     \<lparr>saveTags = True, l1EGTag = ''hltL1IsoRecoEcalCandidate'', ncandcut = 1,
      trkPtCut = 3.0, trkdRCut = 0.5, maxTrkCut = 0, EBOnly = False,
      sMin_min = Finite 0.1, sMin_max = Finite 0.4, sMaj_min = Finite 0.0, sMaj_max = Finite 999.0,
      seedTimeMin = Finite (- 25.0), seedTimeMax = Finite 25.0\<rparr>"

definition exampleTools :: "nat Externals" where
  "exampleTools =
     \<lparr>cluster2ndMoments = (\<lambda>SCseed rechits. \<lparr>sMaj = Finite 1, sMin = Finite 0.2, alpha = Finite 0\<rparr>),
      getMaximum = (\<lambda>SCseed rechits. (of_nat SCseed, Finite 50)),
      DeltaR = (\<lambda>v w. \<bar>Px v - Px w\<bar> + \<bar>Py v - Py w\<bar>)\<rparr>"

definition nanMomentTools :: "nat Externals" where
  "nanMomentTools =
     \<lparr>cluster2ndMoments = (\<lambda>SCseed rechits. \<lparr>sMaj = Finite 1, sMin = NaN, alpha = Finite 0\<rparr>),
      getMaximum = (\<lambda>SCseed rechits. (of_nat SCseed, Finite 50)),
      DeltaR = (\<lambda>v w. \<bar>Px v - Px w\<bar> + \<bar>Py v - Py w\<bar>)\<rparr>"

definition endcapCand :: "nat RecoEcalCandidate" where
  "endcapCand = \<lparr>eta = 2, p4 = \<lparr>Px = 10, Py = 0, Pz = 0, E = 10\<rparr>, superCluster_seed = 7\<rparr>"

definition barrelCand :: "nat RecoEcalCandidate" where
  "barrelCand = \<lparr>eta = 0.5, p4 = \<lparr>Px = 0, Py = 10, Pz = 0, E = 10\<rparr>, superCluster_seed = 3\<rparr>"

definition exampleEvent :: "nat Event" where
  "exampleEvent =
     \<lparr>PrevFilterOutput = (\<lambda>id. if id = TriggerPhoton then [endcapCand, barrelCand] else []),
      tracks = [\<lparr>pt = 5, px = 100, py = 100, pz = 0, p = 150\<rparr>,
                \<lparr>pt = 1, px = 10, py = 0, pz = 0, p = 1\<rparr>],
      rechitsEB = \<lparr>hits = [3 \<mapsto> \<lparr>time = Finite 30\<rparr>], pastEnd = \<lparr>time = Finite 0\<rparr>\<rparr>,
      rechitsEE = \<lparr>hits = [7 \<mapsto> \<lparr>time = Finite 2\<rparr>], pastEnd = \<lparr>time = Finite 0\<rparr>\<rparr>\<rparr>"

definition nanTimeEvent :: "nat Event" where
  "nanTimeEvent =
     \<lparr>PrevFilterOutput = (\<lambda>id. if id = TriggerPhoton then [endcapCand] else []),
      tracks = [],
      rechitsEB = \<lparr>hits = Map.empty, pastEnd = \<lparr>time = Finite 0\<rparr>\<rparr>,
      rechitsEE = \<lparr>hits = [7 \<mapsto> \<lparr>time = NaN\<rparr>], pastEnd = \<lparr>time = Finite 0\<rparr>\<rparr>\<rparr>"

definition emptyProduct :: "nat TriggerFilterObjectWithRefs" where
  "emptyProduct = \<lparr>collectionTags = [], objects = []\<rparr>"

section \<open>The script that regenerates the menu\<close>

text \<open>
  The first part of \<^verbatim>\<open>src/unnamed/part_000\<close> is a bash script of five commands. A
  command is an assignment of a literal string to a variable, \<^verbatim>\<open>source\<close> of a file,
  or a simple command: a name and its words, each word one double-quoted literal or one
  double-quoted variable, which expands to exactly one argument. What the sourced file
  does to the variables is the parameter \<open>sourced\<close>.
\<close>

datatype sh_word = Literal string | Variable string

datatype sh_command =
    Assignment string string
  | Source string
  | SimpleCommand string "sh_word list"

datatype sh_event = Sourced string | Called string "string list"

record sh_state =
  variables :: "string \<rightharpoonup> string"
  events :: "sh_event list"

definition script :: "sh_command list" where
  "script =
     [Assignment ''MASTER'' ''/dev/CMSSW_10_1_0/HLT'',
      Assignment ''TARGET'' ''/online/collisions/2018/2e34/v3.6/HLT'',
      Assignment ''TABLES'' ''online_grun'',
      Source ''subtables.sh'',
      SimpleCommand ''createSubtables''
        [Literal ''v3/run3'', Variable ''MASTER'', Variable ''TARGET'', Variable ''TABLES'']]"

fun expand :: "(string \<rightharpoonup> string) \<Rightarrow> sh_word \<Rightarrow> string" where
  "expand vars (Literal s) = s"
| "expand vars (Variable v) = (case vars v of None \<Rightarrow> [] | Some s \<Rightarrow> s)"

fun exec :: "(string \<Rightarrow> (string \<rightharpoonup> string) \<Rightarrow> (string \<rightharpoonup> string)) \<Rightarrow> sh_command \<Rightarrow> sh_state \<Rightarrow> sh_state" where
  "exec sourced (Assignment v s) st = st\<lparr>variables := (variables st)(v \<mapsto> s)\<rparr>"
| "exec sourced (Source file) st =
     st\<lparr>variables := sourced file (variables st), events := events st @ [Sourced file]\<rparr>"
| "exec sourced (SimpleCommand name ws) st =
     st\<lparr>events := events st @ [Called name (map (expand (variables st)) ws)]\<rparr>"

fun run :: "(string \<Rightarrow> (string \<rightharpoonup> string) \<Rightarrow> (string \<rightharpoonup> string)) \<Rightarrow> sh_command list \<Rightarrow> sh_state \<Rightarrow> sh_state" where
  "run sourced [] st = st"
| "run sourced (c # cs) st = run sourced cs (exec sourced c st)"

fun isAssignment :: "sh_command \<Rightarrow> bool" where
  "isAssignment (Assignment v s) = True"
| "isAssignment c = False"

section \<open>Properties of the trigger-bit update\<close>

subsection \<open>Removing keys\<close>

lemma removeKeys_distinct:
  "distinct keys \<Longrightarrow> set keys \<subseteq> dom m \<Longrightarrow> removeKeysFromMap keys m = (Inr True, m |` (- set keys))"
proof (induction keys arbitrary: m)
  case Nil
  then show ?case by simp
next
  case (Cons k ks)
  have "set ks \<subseteq> dom (m(k := None))" using Cons.prems by auto
  then have "removeKeysFromMap ks (m(k := None)) = (Inr True, (m(k := None)) |` (- set ks))"
    using Cons.IH Cons.prems by simp
  moreover have "(m(k := None)) |` (- set ks) = m |` (- set (k # ks))"
    by (rule ext) (simp add: restrict_map_def)
  moreover have "m k \<noteq> None" using Cons.prems by auto
  ultimately show ?case by simp
qed

lemma removeKeys_stops:
  "distinct pre \<Longrightarrow> set pre \<subseteq> dom m \<Longrightarrow> m k = None \<Longrightarrow>
   removeKeysFromMap (pre @ k # post) m = (Inl (BadConfig_CannotRemoveKey k), m |` (- set pre))"
proof (induction pre arbitrary: m)
  case Nil
  then show ?case by simp
next
  case (Cons a pre)
  have "set pre \<subseteq> dom (m(a := None))" using Cons.prems by auto
  moreover have "(m(a := None)) k = None" using Cons.prems by simp
  ultimately have "removeKeysFromMap (pre @ k # post) (m(a := None)) =
      (Inl (BadConfig_CannotRemoveKey k), (m(a := None)) |` (- set pre))"
    using Cons.IH Cons.prems by simp
  moreover have "(m(a := None)) |` (- set pre) = m |` (- set (a # pre))"
    by (rule ext) (simp add: restrict_map_def)
  moreover have "m a \<noteq> None" using Cons.prems by auto
  ultimately show ?case by simp
qed

lemma removeKeys_repeat:
  "distinct pre \<Longrightarrow> set pre \<subseteq> dom m \<Longrightarrow> k \<in> set pre \<Longrightarrow>
   removeKeysFromMap (pre @ k # post) m = (Inl (BadConfig_CannotRemoveKey k), m |` (- set pre))"
proof (induction pre arbitrary: m)
  case Nil
  then show ?case by simp
next
  case (Cons a pre)
  have sub: "set pre \<subseteq> dom (m(a := None))" using Cons.prems by auto
  have ma: "m a \<noteq> None" using Cons.prems by auto
  have eq: "(m(a := None)) |` (- set pre) = m |` (- set (a # pre))"
    by (rule ext) (simp add: restrict_map_def)
  show ?case
  proof (cases "k = a")
    case True
    have "removeKeysFromMap (pre @ k # post) (m(a := None)) =
      (Inl (BadConfig_CannotRemoveKey k), (m(a := None)) |` (- set pre))"
      using removeKeys_stops[of pre "m(a := None)" k post] sub Cons.prems True by simp
    then show ?thesis using ma eq by simp
  next
    case False
    then have "k \<in> set pre" using Cons.prems by simp
    then have "removeKeysFromMap (pre @ k # post) (m(a := None)) =
      (Inl (BadConfig_CannotRemoveKey k), (m(a := None)) |` (- set pre))"
      using Cons.IH sub Cons.prems by simp
    then show ?thesis using ma eq by simp
  qed
qed

lemma removeKeys_never_false: "fst (removeKeysFromMap keys m) \<noteq> Inr False"
  by (induction keys arbitrary: m) auto

lemma removeKeys_throws_if_absent:
  "\<not> set keys \<subseteq> dom m \<Longrightarrow> \<exists>k. fst (removeKeysFromMap keys m) = Inl (BadConfig_CannotRemoveKey k)"
proof (induction keys arbitrary: m)
  case Nil
  then show ?case by simp
next
  case (Cons a ks)
  show ?case
  proof (cases "m a")
    case None
    then show ?thesis by simp
  next
    case (Some v)
    have "\<not> set ks \<subseteq> dom (m(a := None))" using Cons.prems Some by auto
    from Cons.IH[OF this] obtain k where
      "fst (removeKeysFromMap ks (m(a := None))) = Inl (BadConfig_CannotRemoveKey k)" ..
    then show ?thesis using Some by auto
  qed
qed

lemma removeKeys_true_iff:
  "fst (removeKeysFromMap keys m) = Inr True \<longleftrightarrow> distinct keys \<and> set keys \<subseteq> dom m"
proof (induction keys arbitrary: m)
  case Nil
  then show ?case by simp
next
  case (Cons a ks)
  show ?case
  proof (cases "m a")
    case None
    then show ?thesis by auto
  next
    case (Some v)
    have "fst (removeKeysFromMap (a # ks) m) = fst (removeKeysFromMap ks (m(a := None)))"
      using Some by simp
    moreover have "(fst (removeKeysFromMap ks (m(a := None))) = Inr True) =
        (distinct ks \<and> set ks \<subseteq> dom (m(a := None)))"
      by (rule Cons.IH)
    moreover have "(distinct ks \<and> set ks \<subseteq> dom (m(a := None))) = (distinct (a # ks) \<and> set (a # ks) \<subseteq> dom m)"
      using Some by auto
    ultimately show ?thesis by simp
  qed
qed

lemma analyze_remove_throws:
  "nEventCalls s = 0 \<Longrightarrow>
   fst (removeKeysFromMap (listNamesRemove cfg) (if startEmpty cfg then Map.empty else setupBits)) = Inl e \<Longrightarrow>
   analyze compose cfg setupBits s = (Some e, s\<lparr>nEventCalls := 1\<rparr>)"
  by (cases "removeKeysFromMap (listNamesRemove cfg) (if startEmpty cfg then Map.empty else setupBits)")
     (simp add: analyze_def Let_def)

subsection \<open>Adding lists and renaming keys\<close>

lemma addTriggerLists_ok:
  "distinct (map listName sets) \<Longrightarrow> set (map listName sets) \<inter> dom m = {} \<Longrightarrow>
   addTriggerLists compose sets m = (Inr True, insertLists compose sets m)"
proof (induction sets arbitrary: m)
  case Nil
  then show ?case by (simp add: insertLists_def)
next
  case (Cons a sets)
  have "set (map listName sets) \<inter> dom (m(listName a \<mapsto> compose (hltPaths a))) = {}"
    using Cons.prems by auto
  then have "addTriggerLists compose sets (m(listName a \<mapsto> compose (hltPaths a))) =
      (Inr True, insertLists compose sets (m(listName a \<mapsto> compose (hltPaths a))))"
    using Cons.IH Cons.prems by simp
  moreover have "m (listName a) = None" using Cons.prems by auto
  ultimately show ?case by (simp add: insertLists_def)
qed

lemma addTriggerLists_true_iff:
  "fst (addTriggerLists compose sets m) = Inr True \<longleftrightarrow>
   distinct (map listName sets) \<and> set (map listName sets) \<inter> dom m = {}"
proof (induction sets arbitrary: m)
  case Nil
  then show ?case by simp
next
  case (Cons a sets)
  show ?case
  proof (cases "m (listName a)")
    case (Some v)
    then show ?thesis by auto
  next
    case None
    have "fst (addTriggerLists compose (a # sets) m) =
          fst (addTriggerLists compose sets (m(listName a \<mapsto> compose (hltPaths a))))"
      using None by (simp add: Let_def)
    moreover have "(fst (addTriggerLists compose sets (m(listName a \<mapsto> compose (hltPaths a)))) = Inr True) =
        (distinct (map listName sets) \<and>
         set (map listName sets) \<inter> dom (m(listName a \<mapsto> compose (hltPaths a))) = {})"
      by (rule Cons.IH)
    moreover have "(distinct (map listName sets) \<and>
         set (map listName sets) \<inter> dom (m(listName a \<mapsto> compose (hltPaths a))) = {}) =
       (distinct (map listName (a # sets)) \<and> set (map listName (a # sets)) \<inter> dom m = {})"
      using None by auto
    ultimately show ?thesis by simp
  qed
qed

lemma addTriggerLists_never_false: "fst (addTriggerLists compose sets m) \<noteq> Inr False"
  by (induction sets arbitrary: m) (auto simp: Let_def)

lemma replaceKeyPairs_true:
  "fst (replaceKeyPairs (map (\<lambda>iSet. (oldKey iSet, newKey iSet)) sets) m msgs) \<Longrightarrow>
   replaceKeyPairs (map (\<lambda>iSet. (oldKey iSet, newKey iSet)) sets) m msgs = (True, renameKeys sets m, msgs)"
proof (induction sets arbitrary: m)
  case Nil
  then show ?case by (simp add: renameKeys_def)
next
  case (Cons a sets)
  show ?case
  proof (cases "m (oldKey a)")
    case None
    then show ?thesis using Cons.prems by simp
  next
    case (Some v)
    let ?f = "\<lambda>iSet. (oldKey iSet, newKey iSet)"
    let ?m = "(m(oldKey a := None))(newKey a \<mapsto> v)"
    have step: "replaceKeyPairs (map ?f (a # sets)) m msgs = replaceKeyPairs (map ?f sets) ?m msgs"
      using Some by simp
    then have "fst (replaceKeyPairs (map ?f sets) ?m msgs)" using Cons.prems by simp
    then have "replaceKeyPairs (map ?f sets) ?m msgs = (True, renameKeys sets ?m, msgs)"
      by (rule Cons.IH)
    moreover have "renameKeys (a # sets) m = renameKeys sets ?m"
      using Some by (simp add: renameKeys_def)
    ultimately show ?thesis using step by simp
  qed
qed

lemma replaceKeysFromMap_true:
  "fst (replaceKeysFromMap sets m msgs) \<Longrightarrow> replaceKeysFromMap sets m msgs = (True, renameKeys sets m, msgs)"
  unfolding replaceKeysFromMap_def Let_def by (rule replaceKeyPairs_true)

lemma replaceKeyPairs_append:
  "replaceKeyPairs (xs @ ys) m msgs =
     (case replaceKeyPairs xs m msgs of
        (True, m', msgs') \<Rightarrow> replaceKeyPairs ys m' msgs'
      | (False, m', msgs') \<Rightarrow> (False, m', msgs'))"
  by (induction xs arbitrary: m) (auto split: option.splits)

lemma replaceKeysFromMap_stops:
  assumes "fst (replaceKeysFromMap pre m msgs)" and "renameKeys pre m (oldKey iSet) = None"
  shows "replaceKeysFromMap (pre @ iSet # post) m msgs =
     (False, renameKeys pre m, msgs @ [LogWarning_CannotReplaceKey (oldKey iSet) (newKey iSet)])"
proof -
  have "replaceKeysFromMap pre m msgs = (True, renameKeys pre m, msgs)"
    using assms(1) by (rule replaceKeysFromMap_true)
  then show ?thesis using assms(2)
    by (simp add: replaceKeysFromMap_def replaceKeyPairs_append)
qed

lemma replaceKeyPairs_dom:
  "dom (fst (snd (replaceKeyPairs ps m msgs))) \<subseteq> dom m \<union> snd ` set ps"
proof (induction ps arbitrary: m)
  case Nil
  then show ?case by simp
next
  case (Cons a ps)
  show ?case
  proof (cases "m (fst a)")
    case None
    then show ?thesis by auto
  next
    case (Some v)
    have "dom (fst (snd (replaceKeyPairs ps ((m(fst a := None))(snd a \<mapsto> v)) msgs)))
          \<subseteq> dom ((m(fst a := None))(snd a \<mapsto> v)) \<union> snd ` set ps"
      by (rule Cons.IH)
    moreover have "dom ((m(fst a := None))(snd a \<mapsto> v)) \<subseteq> dom m \<union> {snd a}" by auto
    ultimately show ?thesis using Some by auto
  qed
qed

lemma replaceKeysFromMap_absent:
  assumes "m (oldKey iSet) = None" and "oldKey iSet \<notin> newKey ` set pre"
  shows "\<not> fst (replaceKeysFromMap (pre @ iSet # post) m msgs)"
proof (cases "fst (replaceKeysFromMap pre m msgs)")
  case True
  let ?ps = "map (\<lambda>iSet. (oldKey iSet, newKey iSet)) pre"
  have "replaceKeysFromMap pre m msgs = (True, renameKeys pre m, msgs)"
    using True by (rule replaceKeysFromMap_true)
  then have eq: "replaceKeyPairs ?ps m msgs = (True, renameKeys pre m, msgs)"
    by (simp add: replaceKeysFromMap_def)
  have "dom (fst (snd (replaceKeyPairs ?ps m msgs))) \<subseteq> dom m \<union> snd ` set ?ps"
    by (rule replaceKeyPairs_dom)
  then have "dom (renameKeys pre m) \<subseteq> dom m \<union> newKey ` set pre"
    using eq by (simp add: image_image)
  then have "renameKeys pre m (oldKey iSet) = None" using assms by auto
  then show ?thesis using replaceKeysFromMap_stops[OF True, of iSet post] by simp
next
  case False
  let ?f = "\<lambda>iSet. (oldKey iSet, newKey iSet)"
  obtain b m' msgs' where r: "replaceKeyPairs (map ?f pre) m msgs = (b, m', msgs')"
    by (cases "replaceKeyPairs (map ?f pre) m msgs") auto
  then have "\<not> b" using False by (simp add: replaceKeysFromMap_def)
  then show ?thesis using r
    by (simp add: replaceKeysFromMap_def replaceKeyPairs_append)
qed

lemma replaceKeyPairs_false_log:
  "\<not> fst (replaceKeyPairs ps m msgs) \<Longrightarrow>
   \<exists>old new. (old, new) \<in> set ps \<and> snd (snd (replaceKeyPairs ps m msgs)) = msgs @ [LogWarning_CannotReplaceKey old new]"
proof (induction ps arbitrary: m)
  case Nil
  then show ?case by simp
next
  case (Cons a ps)
  show ?case
  proof (cases "m (fst a)")
    case None
    then show ?thesis by (cases a) auto
  next
    case (Some v)
    let ?m = "(m(fst a := None))(snd a \<mapsto> v)"
    have step: "replaceKeyPairs (a # ps) m msgs = replaceKeyPairs ps ?m msgs"
      using Some by simp
    then have "\<not> fst (replaceKeyPairs ps ?m msgs)" using Cons.prems by simp
    then have "\<exists>old new. (old, new) \<in> set ps \<and>
        snd (snd (replaceKeyPairs ps ?m msgs)) = msgs @ [LogWarning_CannotReplaceKey old new]"
      by (rule Cons.IH)
    then obtain old new where "(old, new) \<in> set ps"
      and "snd (snd (replaceKeyPairs ps ?m msgs)) = msgs @ [LogWarning_CannotReplaceKey old new]"
      by blast
    then have "(old, new) \<in> set (a # ps) \<and>
        snd (snd (replaceKeyPairs (a # ps) m msgs)) = msgs @ [LogWarning_CannotReplaceKey old new]"
      using step by simp
    then show ?thesis by blast
  qed
qed

subsection \<open>One call and many calls of analyze\<close>

lemma writeBitsToDB_available:
  "poolDbAvailable s \<Longrightarrow> fst (writeBitsToDB cfg bits s) = None \<and>
     dbWrites (snd (writeBitsToDB cfg bits s)) = dbWrites s @ [(bits, firstRunIOV cfg, recordName)] \<and>
     nEventCalls (snd (writeBitsToDB cfg bits s)) = nEventCalls s \<and>
     poolDbAvailable (snd (writeBitsToDB cfg bits s))"
  by (simp add: writeBitsToDB_def Let_def recordName_def)

lemma writeBitsToDB_unavailable:
  "\<not> poolDbAvailable s \<Longrightarrow> fst (writeBitsToDB cfg bits s) = Some NotAvailable_PoolDBOutputService \<and>
     dbWrites (snd (writeBitsToDB cfg bits s)) = dbWrites s \<and>
     nEventCalls (snd (writeBitsToDB cfg bits s)) = nEventCalls s \<and>
     \<not> poolDbAvailable (snd (writeBitsToDB cfg bits s))"
  by (simp add: writeBitsToDB_def Let_def)

lemma analyze_later_call:
  "nEventCalls s \<noteq> 0 \<Longrightarrow>
   analyze compose cfg setupBits s =
     (None, s\<lparr>nEventCalls := nEventCalls s + 1, messageLog := messageLog s @ [LogWarning_WritingOnlyOnce]\<rparr>)"
  by (simp add: analyze_def Let_def word_neq_0_conv)

lemma analyze_first_call:
  assumes "nEventCalls s = 0"
  shows "analyze compose cfg setupBits s =
    (case removeKeysFromMap (listNamesRemove cfg) (startBits cfg setupBits) of
       (Inl e, _) \<Rightarrow> (Some e, s\<lparr>nEventCalls := 1\<rparr>)
     | (Inr _, removed) \<Rightarrow>
        (case addTriggerLists compose (triggerListsAdd cfg) removed of
           (Inl e, _) \<Rightarrow> (Some e, s\<lparr>nEventCalls := 1\<rparr>)
         | (Inr _, added) \<Rightarrow>
            writeBitsToDB cfg (fst (snd (replaceKeysFromMap (alcarecoReplace cfg) added (messageLog s))))
              (s\<lparr>nEventCalls := 1,
                 messageLog := snd (snd (replaceKeysFromMap (alcarecoReplace cfg) added (messageLog s)))\<rparr>)))"
  using assms by (simp add: analyze_def Let_def startBits_def split: prod.splits sum.splits)

lemma analyze_counter: "nEventCalls (snd (analyze compose cfg setupBits s)) = nEventCalls s + 1"
proof (cases "nEventCalls s = 0")
  case False
  then show ?thesis by (simp add: analyze_later_call)
next
  case True
  show ?thesis
    by (cases "poolDbAvailable s")
       (simp_all add: analyze_first_call[OF True] True writeBitsToDB_available writeBitsToDB_unavailable
          split: prod.splits sum.splits)
qed

lemma analyze_available: "poolDbAvailable (snd (analyze compose cfg setupBits s)) = poolDbAvailable s"
proof (cases "nEventCalls s = 0")
  case False
  then show ?thesis by (simp add: analyze_later_call)
next
  case True
  show ?thesis
    by (cases "poolDbAvailable s")
       (simp_all add: analyze_first_call[OF True] True writeBitsToDB_available writeBitsToDB_unavailable
          split: prod.splits sum.splits)
qed

lemma analyze_writes_le:
  "\<exists>ws. dbWrites (snd (analyze compose cfg setupBits s)) = dbWrites s @ ws \<and> length ws \<le> 1"
proof (cases "nEventCalls s = 0")
  case False
  then show ?thesis by (simp add: analyze_later_call)
next
  case True
  show ?thesis
    by (cases "poolDbAvailable s")
       (simp_all add: analyze_first_call[OF True] True writeBitsToDB_available writeBitsToDB_unavailable
          split: prod.splits sum.splits)
qed

lemma analyzeCalls_append:
  "analyzeCalls compose cfg (xs @ ys) s = analyzeCalls compose cfg ys (analyzeCalls compose cfg xs s)"
  by (induction xs arbitrary: s) simp_all

lemma word32_succ:
  fixes c :: "32 word"
  assumes "unat c + 1 < 2 ^ 32"
  shows "unat (c + 1) = unat c + 1" and "c + 1 \<noteq> 0"
proof -
  show u: "unat (c + 1) = unat c + 1"
    using assms by (simp add: unat_word_ariths)
  show "c + 1 \<noteq> 0"
  proof
    assume "c + 1 = 0"
    then have "unat (c + 1) = 0" by simp
    then show False using u by simp
  qed
qed

lemma analyzeCalls_later:
  "nEventCalls s \<noteq> 0 \<Longrightarrow> unat (nEventCalls s) + length evs \<le> 2 ^ 32 \<Longrightarrow>
   analyzeCalls compose cfg evs s =
     s\<lparr>nEventCalls := nEventCalls s + of_nat (length evs),
       messageLog := messageLog s @ replicate (length evs) LogWarning_WritingOnlyOnce\<rparr>"
proof (induction evs arbitrary: s)
  case Nil
  then show ?case by simp
next
  case (Cons b evs)
  let ?s = "s\<lparr>nEventCalls := nEventCalls s + 1, messageLog := messageLog s @ [LogWarning_WritingOnlyOnce]\<rparr>"
  show ?case
  proof (cases evs)
    case Nil
    then show ?thesis using Cons.prems by (simp add: analyze_later_call)
  next
    case more: (Cons b' evs')
    then have lt: "unat (nEventCalls s) + 1 < 2 ^ 32" using Cons.prems by simp
    have "nEventCalls ?s \<noteq> 0" using word32_succ(2)[OF lt] by simp
    moreover have "unat (nEventCalls ?s) + length evs \<le> 2 ^ 32"
      using word32_succ(1)[OF lt] Cons.prems by simp
    ultimately have "analyzeCalls compose cfg evs ?s =
       ?s\<lparr>nEventCalls := nEventCalls ?s + of_nat (length evs),
         messageLog := messageLog ?s @ replicate (length evs) LogWarning_WritingOnlyOnce\<rparr>"
      by (rule Cons.IH)
    then show ?thesis using Cons.prems(1)
      by (simp add: analyze_later_call replicate_app_Cons_same)
  qed
qed

lemma analyzeCalls_later_writes:
  assumes "nEventCalls s \<noteq> 0" and "unat (nEventCalls s) + length evs \<le> 2 ^ 32"
  shows "dbWrites (analyzeCalls compose cfg evs s) = dbWrites s"
    and "nEventCalls (analyzeCalls compose cfg evs s) = nEventCalls s + of_nat (length evs)"
    and "poolDbAvailable (analyzeCalls compose cfg evs s) = poolDbAvailable s"
  by (simp_all add: analyzeCalls_later[OF assms])

lemma analyzeCalls_bounded:
  assumes "nEventCalls s = 0" and "length evs \<le> 2 ^ 32"
  shows "\<exists>ws. dbWrites (analyzeCalls compose cfg evs s) = dbWrites s @ ws \<and> length ws \<le> 1"
proof (cases evs)
  case Nil
  then show ?thesis by simp
next
  case (Cons b rest)
  let ?s = "snd (analyze compose cfg b s)"
  have c: "nEventCalls ?s = 1" using assms(1) by (simp add: analyze_counter)
  then have "nEventCalls ?s \<noteq> 0" by simp
  moreover have "unat (nEventCalls ?s) + length rest \<le> 2 ^ 32"
    using c assms(2) Cons by simp
  ultimately have "dbWrites (analyzeCalls compose cfg rest ?s) = dbWrites ?s"
    by (rule analyzeCalls_later_writes(1))
  then show ?thesis using Cons analyze_writes_le[of compose cfg b s] by simp
qed

lemma replicate_ends: "replicate (Suc (Suc n)) x = [x] @ replicate n x @ [x]"
  by (simp add: replicate_append_same)

lemma analyze_first_call_ok:
  assumes "nEventCalls s = 0" and "poolDbAvailable s"
    and "removeKeysFromMap (listNamesRemove cfg) (startBits cfg setupBits) = (Inr r1, m1)"
    and "addTriggerLists compose (triggerListsAdd cfg) m1 = (Inr r2, m2)"
  shows "fst (analyze compose cfg setupBits s) = None"
    and "dbWrites (snd (analyze compose cfg setupBits s)) =
         dbWrites s @ [(fst (snd (replaceKeysFromMap (alcarecoReplace cfg) m2 (messageLog s))),
                        firstRunIOV cfg, recordName)]"
    and "messageLog (snd (analyze compose cfg setupBits s)) =
         snd (snd (replaceKeysFromMap (alcarecoReplace cfg) m2 (messageLog s))) @
         [LogInfo_Uploading, LogInfo_Done (firstRunIOV cfg) (lastRunIOV cfg)]"
  using assms(2-4)
  by (simp_all add: analyze_first_call[OF assms(1)] writeBitsToDB_def Let_def recordName_def)

lemma analyze_again_after_wrap:
  assumes "nEventCalls s = 0" and "poolDbAvailable s"
    and "listNamesRemove cfg = []" and "triggerListsAdd cfg = []"
    and "length evs = 2 ^ 32 - 1"
  shows "length (dbWrites (analyzeCalls compose cfg ([b] @ evs @ [b']) s)) = length (dbWrites s) + 2"
proof -
  let ?s1 = "snd (analyze compose cfg b s)"
  let ?s2 = "analyzeCalls compose cfg evs ?s1"
  have r: "removeKeysFromMap (listNamesRemove cfg) (startBits cfg x) = (Inr True, startBits cfg x)"
    and a: "addTriggerLists compose (triggerListsAdd cfg) (startBits cfg x) = (Inr True, startBits cfg x)" for x
    using assms(3,4) by simp_all
  have c1: "nEventCalls ?s1 = 1" using assms(1) by (simp add: analyze_counter)
  have a1: "poolDbAvailable ?s1" using assms(2) by (simp add: analyze_available)
  have w1: "length (dbWrites ?s1) = length (dbWrites s) + 1"
    using analyze_first_call_ok(2)[OF assms(1,2) r a] by simp
  have ne: "nEventCalls ?s1 \<noteq> 0" using c1 by simp
  have bound: "unat (nEventCalls ?s1) + length evs \<le> 2 ^ 32"
    using c1 assms(5) by simp
  have w2: "dbWrites ?s2 = dbWrites ?s1"
    using ne bound by (rule analyzeCalls_later_writes(1))
  have "nEventCalls ?s2 = nEventCalls ?s1 + of_nat (length evs)"
    using ne bound by (rule analyzeCalls_later_writes(2))
  then have c2: "nEventCalls ?s2 = 0" using c1 assms(5) by simp
  have "poolDbAvailable ?s2 = poolDbAvailable ?s1"
    using ne bound by (rule analyzeCalls_later_writes(3))
  then have a2: "poolDbAvailable ?s2" using a1 by simp
  have "length (dbWrites (snd (analyze compose cfg b' ?s2))) = length (dbWrites ?s2) + 1"
    using analyze_first_call_ok(2)[OF c2 a2 r a] by simp
  then have "length (dbWrites (snd (analyze compose cfg b' ?s2))) = length (dbWrites s) + 2"
    using w1 w2 by simp
  then show ?thesis
    by (simp only: analyzeCalls_append analyzeCalls.simps)
qed

text \<open>
  Claim C9 (the write happens at most once over any sequence of calls). The counter
  \<^verbatim>\<open>nEventCalls_\<close> is an \<^verbatim>\<open>unsigned int\<close>: after \<open>2 ^ 32\<close> calls it is 0 again, and
  the next call runs the whole body once more. With the database service available and a
  configuration that removes, adds and renames nothing, \<open>2 ^ 32 + 1\<close> calls on a freshly
  constructed module make two writes. Over at most \<open>2 ^ 32\<close> calls the write is made at
  most once, and every call after the first only logs the warning
  (\<open>analyzeCalls_bounded\<close>, \<open>analyzeCalls_later\<close>).
\<close>

theorem analyze_writes_twice_after_wrap:
  "length (dbWrites (analyzeCalls compose
       \<lparr>firstRunIOV = 1, lastRunIOV = - 1, startEmpty = True, listNamesRemove = [],
        triggerListsAdd = [], alcarecoReplace = []\<rparr>
       (replicate (2 ^ 32 + 1) Map.empty) (constructed True))) = 2"
proof -
  let ?n = "2 ^ 32 - 1 :: nat"
  have "(2 ^ 32 + 1 :: nat) = Suc (Suc ?n)" by simp
  then have split: "replicate (2 ^ 32 + 1) (Map.empty :: TriggerMap) =
      [Map.empty] @ replicate ?n Map.empty @ [Map.empty]"
    by (simp only: replicate_ends)
  have c0: "nEventCalls (constructed True) = 0" and a0: "poolDbAvailable (constructed True)"
    and d0: "dbWrites (constructed True) = []"
    by (simp_all add: constructed_def)
  show ?thesis
    unfolding split
    using analyze_again_after_wrap[OF c0 a0, of _ "replicate ?n Map.empty" compose Map.empty Map.empty] d0
    by simp
qed

lemma removeKeys_cases:
  "(\<exists>e m'. removeKeysFromMap keys m = (Inl e, m') \<and> \<not> (distinct keys \<and> set keys \<subseteq> dom m)) \<or>
   (removeKeysFromMap keys m = (Inr True, eraseKeys keys m) \<and> distinct keys \<and> set keys \<subseteq> dom m)"
proof (cases "distinct keys \<and> set keys \<subseteq> dom m")
  case True
  then show ?thesis by (simp add: removeKeys_distinct eraseKeys_def)
next
  case False
  then have ne: "fst (removeKeysFromMap keys m) \<noteq> Inr True" by (simp add: removeKeys_true_iff)
  obtain r m' where r: "removeKeysFromMap keys m = (r, m')" by (cases "removeKeysFromMap keys m") auto
  have "r \<noteq> Inr True" using ne r by simp
  moreover have "r \<noteq> Inr False" using removeKeys_never_false[of keys m] r by simp
  ultimately obtain e where "r = Inl e" by (cases r) auto
  then show ?thesis using r False by blast
qed

lemma addTriggerLists_cases:
  "(\<exists>e m'. addTriggerLists compose sets m = (Inl e, m') \<and>
        \<not> (distinct (map listName sets) \<and> set (map listName sets) \<inter> dom m = {})) \<or>
   (addTriggerLists compose sets m = (Inr True, insertLists compose sets m) \<and>
        distinct (map listName sets) \<and> set (map listName sets) \<inter> dom m = {})"
proof (cases "distinct (map listName sets) \<and> set (map listName sets) \<inter> dom m = {}")
  case True
  then show ?thesis by (simp add: addTriggerLists_ok)
next
  case False
  then have ne: "fst (addTriggerLists compose sets m) \<noteq> Inr True"
    by (simp add: addTriggerLists_true_iff)
  obtain r m' where r: "addTriggerLists compose sets m = (r, m')"
    by (cases "addTriggerLists compose sets m") auto
  have "r \<noteq> Inr True" using ne r by simp
  moreover have "r \<noteq> Inr False" using addTriggerLists_never_false[of compose sets m] r by simp
  ultimately obtain e where "r = Inl e" by (cases r) auto
  then show ?thesis using r False by blast
qed

lemma analyze_first_call_throws:
  assumes "nEventCalls s = 0"
  shows "removeKeysFromMap (listNamesRemove cfg) (startBits cfg setupBits) = (Inl e, m') \<Longrightarrow>
         analyze compose cfg setupBits s = (Some e, s\<lparr>nEventCalls := 1\<rparr>)"
    and "removeKeysFromMap (listNamesRemove cfg) (startBits cfg setupBits) = (Inr r1, m1) \<Longrightarrow>
         addTriggerLists compose (triggerListsAdd cfg) m1 = (Inl e, m') \<Longrightarrow>
         analyze compose cfg setupBits s = (Some e, s\<lparr>nEventCalls := 1\<rparr>)"
    and "removeKeysFromMap (listNamesRemove cfg) (startBits cfg setupBits) = (Inr r1, m1) \<Longrightarrow>
         addTriggerLists compose (triggerListsAdd cfg) m1 = (Inr r2, m2) \<Longrightarrow> \<not> poolDbAvailable s \<Longrightarrow>
         fst (analyze compose cfg setupBits s) = Some NotAvailable_PoolDBOutputService \<and>
         dbWrites (snd (analyze compose cfg setupBits s)) = dbWrites s"
  by (simp_all add: analyze_first_call[OF assms] writeBitsToDB_def Let_def)

text \<open>
  Claim C2 (the order of the edits and the single write). On the first call of
  \<^verbatim>\<open>analyze\<close>: the call returns without an exception exactly when the keys to
  remove are all in the starting map and none is listed twice, the list names to add are
  pairwise different and not in the map left by the removal, and the database service is
  available. When it returns, one write has been added to the writes made before, and
  its payload is what the rename loop leaves of the map obtained by first erasing the
  keys and then inserting the lists; when the rename loop returns true, that is the map
  with every old key moved to its new key. When an exception leaves the call, no write
  has been made.
\<close>

theorem analyze_first_call_order:
  "nEventCalls s = 0 \<longrightarrow>
     ((fst (analyze compose cfg setupBits s) = None) =
        (distinct (listNamesRemove cfg) \<and>
         set (listNamesRemove cfg) \<subseteq> dom (startBits cfg setupBits) \<and>
         distinct (map listName (triggerListsAdd cfg)) \<and>
         set (map listName (triggerListsAdd cfg)) \<inter>
           dom (eraseKeys (listNamesRemove cfg) (startBits cfg setupBits)) = {} \<and>
         poolDbAvailable s)) \<and>
     (fst (analyze compose cfg setupBits s) = None \<longrightarrow>
        dbWrites (snd (analyze compose cfg setupBits s)) =
          dbWrites s @
          [(fst (snd (replaceKeysFromMap (alcarecoReplace cfg)
                        (insertLists compose (triggerListsAdd cfg)
                           (eraseKeys (listNamesRemove cfg) (startBits cfg setupBits)))
                        (messageLog s))),
            firstRunIOV cfg, recordName)]) \<and>
     (fst (analyze compose cfg setupBits s) = None \<and>
      fst (replaceKeysFromMap (alcarecoReplace cfg)
             (insertLists compose (triggerListsAdd cfg)
                (eraseKeys (listNamesRemove cfg) (startBits cfg setupBits)))
             (messageLog s)) \<longrightarrow>
        dbWrites (snd (analyze compose cfg setupBits s)) =
          dbWrites s @
          [(renameKeys (alcarecoReplace cfg)
              (insertLists compose (triggerListsAdd cfg)
                 (eraseKeys (listNamesRemove cfg) (startBits cfg setupBits))),
            firstRunIOV cfg, recordName)]) \<and>
     (fst (analyze compose cfg setupBits s) \<noteq> None \<longrightarrow>
        dbWrites (snd (analyze compose cfg setupBits s)) = dbWrites s)"
proof (cases "nEventCalls s = 0")
  case False
  then show ?thesis by simp
next
  case first: True
  let ?bits = "startBits cfg setupBits"
  let ?m1 = "eraseKeys (listNamesRemove cfg) ?bits"
  let ?m2 = "insertLists compose (triggerListsAdd cfg) ?m1"
  let ?r = "replaceKeysFromMap (alcarecoReplace cfg) ?m2 (messageLog s)"
  let ?okR = "distinct (listNamesRemove cfg) \<and> set (listNamesRemove cfg) \<subseteq> dom ?bits"
  let ?okA = "distinct (map listName (triggerListsAdd cfg)) \<and>
              set (map listName (triggerListsAdd cfg)) \<inter> dom ?m1 = {}"
  have renamed: "fst ?r \<Longrightarrow> fst (snd ?r) = renameKeys (alcarecoReplace cfg) ?m2"
    using replaceKeysFromMap_true[of "alcarecoReplace cfg" ?m2 "messageLog s"] by simp
  consider
      (remove) e m' where "removeKeysFromMap (listNamesRemove cfg) ?bits = (Inl e, m')" "\<not> ?okR"
    | (add) e m' where "removeKeysFromMap (listNamesRemove cfg) ?bits = (Inr True, ?m1)" "?okR"
        "addTriggerLists compose (triggerListsAdd cfg) ?m1 = (Inl e, m')" "\<not> ?okA"
    | (db) "removeKeysFromMap (listNamesRemove cfg) ?bits = (Inr True, ?m1)" "?okR"
        "addTriggerLists compose (triggerListsAdd cfg) ?m1 = (Inr True, ?m2)" "?okA"
        "\<not> poolDbAvailable s"
    | (ok) "removeKeysFromMap (listNamesRemove cfg) ?bits = (Inr True, ?m1)" "?okR"
        "addTriggerLists compose (triggerListsAdd cfg) ?m1 = (Inr True, ?m2)" "?okA"
        "poolDbAvailable s"
    using removeKeys_cases[of "listNamesRemove cfg" ?bits]
      addTriggerLists_cases[of compose "triggerListsAdd cfg" ?m1]
    by blast
  then have main: "((fst (analyze compose cfg setupBits s) = None) = (?okR \<and> ?okA \<and> poolDbAvailable s)) \<and>
     (fst (analyze compose cfg setupBits s) = None \<longrightarrow>
        dbWrites (snd (analyze compose cfg setupBits s)) =
          dbWrites s @ [(fst (snd ?r), firstRunIOV cfg, recordName)]) \<and>
     (fst (analyze compose cfg setupBits s) = None \<and> fst ?r \<longrightarrow>
        dbWrites (snd (analyze compose cfg setupBits s)) =
          dbWrites s @ [(renameKeys (alcarecoReplace cfg) ?m2, firstRunIOV cfg, recordName)]) \<and>
     (fst (analyze compose cfg setupBits s) \<noteq> None \<longrightarrow>
        dbWrites (snd (analyze compose cfg setupBits s)) = dbWrites s)"
  proof cases
    case remove
    then show ?thesis using analyze_first_call_throws(1)[OF first remove(1), of compose] by auto
  next
    case add
    then show ?thesis using analyze_first_call_throws(2)[OF first add(1) add(3)] by auto
  next
    case db
    then show ?thesis using analyze_first_call_throws(3)[OF first db(1) db(3) db(5)] by auto
  next
    case ok
    have "fst (analyze compose cfg setupBits s) = None"
      and "dbWrites (snd (analyze compose cfg setupBits s)) =
          dbWrites s @ [(fst (snd ?r), firstRunIOV cfg, recordName)]"
      using analyze_first_call_ok(1,2)[OF first ok(5) ok(1) ok(3)] by simp_all
    then show ?thesis using ok(2) ok(4) ok(5) renamed by simp
  qed
  show ?thesis
  proof (intro impI conjI)
    show "(fst (analyze compose cfg setupBits s) = None) =
        (distinct (listNamesRemove cfg) \<and>
         set (listNamesRemove cfg) \<subseteq> dom ?bits \<and>
         distinct (map listName (triggerListsAdd cfg)) \<and>
         set (map listName (triggerListsAdd cfg)) \<inter> dom ?m1 = {} \<and>
         poolDbAvailable s)"
      using main by blast
  qed (use main in blast)+
qed

lemma replaceKeysFromMap_false_split:
  "\<not> fst (replaceKeysFromMap sets m msgs) \<Longrightarrow>
   \<exists>pre iSet post. sets = pre @ iSet # post \<and> fst (replaceKeysFromMap pre m msgs) \<and>
      renameKeys pre m (oldKey iSet) = None"
proof (induction sets arbitrary: m)
  case Nil
  then show ?case by (simp add: replaceKeysFromMap_def)
next
  case (Cons a sets)
  show ?case
  proof (cases "m (oldKey a)")
    case None
    have "a # sets = [] @ a # sets \<and> fst (replaceKeysFromMap [] m msgs) \<and>
        renameKeys [] m (oldKey a) = None"
      using None by (simp add: replaceKeysFromMap_def renameKeys_def)
    then show ?thesis by blast
  next
    case (Some v)
    let ?m = "(m(oldKey a := None))(newKey a \<mapsto> v)"
    have step: "replaceKeysFromMap (a # xs) m msgs = replaceKeysFromMap xs ?m msgs" for xs
      using Some by (simp add: replaceKeysFromMap_def)
    have ren: "renameKeys (a # xs) m = renameKeys xs ?m" for xs
      using Some by (simp add: renameKeys_def)
    have "\<not> fst (replaceKeysFromMap sets ?m msgs)" using Cons.prems step by simp
    then have "\<exists>pre iSet post. sets = pre @ iSet # post \<and> fst (replaceKeysFromMap pre ?m msgs) \<and>
        renameKeys pre ?m (oldKey iSet) = None"
      by (rule Cons.IH)
    then obtain pre iSet post where "sets = pre @ iSet # post"
      and "fst (replaceKeysFromMap pre ?m msgs)" and "renameKeys pre ?m (oldKey iSet) = None"
      by blast
    then have "a # sets = (a # pre) @ iSet # post \<and> fst (replaceKeysFromMap (a # pre) m msgs) \<and>
        renameKeys (a # pre) m (oldKey iSet) = None"
      using step ren by simp
    then show ?thesis by blast
  qed
qed

subsection \<open>The claims on the trigger-bit update\<close>

text \<open>
  Claim C5, as amended (what \<^verbatim>\<open>removeKeysFromMap\<close> does). For a key list with no key
  listed twice whose keys are all in the map, the function returns true and leaves the map
  without exactly the listed keys. Whenever some listed key is not in the map it throws,
  and it never returns false. It stops at the first key that is not in the map any more,
  either because the map never had it or because an earlier entry of the list was the
  same key; when no key before that one is listed twice and all of them were in the map,
  the map is left without exactly those earlier keys. When the removal throws on the
  first call of \<^verbatim>\<open>analyze\<close>, the exception leaves \<^verbatim>\<open>analyze\<close> with nothing
  changed but the call counter, so no write has been made.
\<close>

theorem removeKeysFromMap_outcomes:
  "(distinct keys \<and> set keys \<subseteq> dom m \<longrightarrow>
      removeKeysFromMap keys m = (Inr True, eraseKeys keys m)) \<and>
   (\<not> set keys \<subseteq> dom m \<longrightarrow>
      (\<exists>k. fst (removeKeysFromMap keys m) = Inl (BadConfig_CannotRemoveKey k))) \<and>
   fst (removeKeysFromMap keys m) \<noteq> Inr False \<and>
   (distinct pre \<and> set pre \<subseteq> dom m \<and> k \<notin> dom m \<longrightarrow>
      removeKeysFromMap (pre @ k # post) m = (Inl (BadConfig_CannotRemoveKey k), eraseKeys pre m)) \<and>
   (distinct pre \<and> set pre \<subseteq> dom m \<and> k \<in> set pre \<longrightarrow>
      removeKeysFromMap (pre @ k # post) m = (Inl (BadConfig_CannotRemoveKey k), eraseKeys pre m)) \<and>
   (nEventCalls s = 0 \<and>
    fst (removeKeysFromMap (listNamesRemove cfg) (startBits cfg setupBits)) = Inl e \<longrightarrow>
      analyze compose cfg setupBits s = (Some e, s\<lparr>nEventCalls := 1\<rparr>))"
proof (intro conjI impI)
  show "fst (removeKeysFromMap keys m) \<noteq> Inr False" by (rule removeKeys_never_false)
next
  assume "\<not> set keys \<subseteq> dom m"
  then show "\<exists>k. fst (removeKeysFromMap keys m) = Inl (BadConfig_CannotRemoveKey k)"
    by (rule removeKeys_throws_if_absent)
next
  assume "distinct keys \<and> set keys \<subseteq> dom m"
  then show "removeKeysFromMap keys m = (Inr True, eraseKeys keys m)"
    by (simp add: removeKeys_distinct eraseKeys_def)
next
  assume "distinct pre \<and> set pre \<subseteq> dom m \<and> k \<notin> dom m"
  then show "removeKeysFromMap (pre @ k # post) m = (Inl (BadConfig_CannotRemoveKey k), eraseKeys pre m)"
    by (simp add: removeKeys_stops eraseKeys_def domIff)
next
  assume "distinct pre \<and> set pre \<subseteq> dom m \<and> k \<in> set pre"
  then show "removeKeysFromMap (pre @ k # post) m = (Inl (BadConfig_CannotRemoveKey k), eraseKeys pre m)"
    by (simp add: removeKeys_repeat eraseKeys_def)
next
  assume "nEventCalls s = 0 \<and>
    fst (removeKeysFromMap (listNamesRemove cfg) (startBits cfg setupBits)) = Inl e"
  then show "analyze compose cfg setupBits s = (Some e, s\<lparr>nEventCalls := 1\<rparr>)"
    by (simp add: analyze_remove_throws startBits_def)
qed

text \<open>
  The theorem at a map with the keys a, b and c: removing a and b succeeds; the lists
  a, x, b and a, a, b stop at their second entry with only a erased; and a first call of
  \<^verbatim>\<open>analyze\<close> that is to remove x from the empty map throws and writes nothing.
\<close>

theorem removeKeysFromMap_outcomes_witness:
  "(distinct [''a'', ''b''] \<and> set [''a'', ''b''] \<subseteq> dom [''a'' \<mapsto> ''1'', ''b'' \<mapsto> ''2'', ''c'' \<mapsto> ''3'']) \<and>
   removeKeysFromMap [''a'', ''b''] [''a'' \<mapsto> ''1'', ''b'' \<mapsto> ''2'', ''c'' \<mapsto> ''3''] =
     (Inr True, eraseKeys [''a'', ''b''] [''a'' \<mapsto> ''1'', ''b'' \<mapsto> ''2'', ''c'' \<mapsto> ''3'']) \<and>
   eraseKeys [''a'', ''b''] [''a'' \<mapsto> ''1'', ''b'' \<mapsto> ''2'', ''c'' \<mapsto> ''3''] ''a'' = None \<and>
   eraseKeys [''a'', ''b''] [''a'' \<mapsto> ''1'', ''b'' \<mapsto> ''2'', ''c'' \<mapsto> ''3''] ''c'' = Some ''3'' \<and>
   ''x'' \<notin> dom [''a'' \<mapsto> ''1'', ''b'' \<mapsto> ''2'', ''c'' \<mapsto> ''3''] \<and>
   removeKeysFromMap ([''a''] @ ''x'' # [''b'']) [''a'' \<mapsto> ''1'', ''b'' \<mapsto> ''2'', ''c'' \<mapsto> ''3''] =
     (Inl (BadConfig_CannotRemoveKey ''x''), eraseKeys [''a''] [''a'' \<mapsto> ''1'', ''b'' \<mapsto> ''2'', ''c'' \<mapsto> ''3'']) \<and>
   removeKeysFromMap ([''a''] @ ''a'' # [''b'']) [''a'' \<mapsto> ''1'', ''b'' \<mapsto> ''2'', ''c'' \<mapsto> ''3''] =
     (Inl (BadConfig_CannotRemoveKey ''a''), eraseKeys [''a''] [''a'' \<mapsto> ''1'', ''b'' \<mapsto> ''2'', ''c'' \<mapsto> ''3'']) \<and>
   analyze concat
     \<lparr>firstRunIOV = 1, lastRunIOV = - 1, startEmpty = True, listNamesRemove = [''x''],
      triggerListsAdd = [], alcarecoReplace = []\<rparr> Map.empty (constructed True) =
     (Some (BadConfig_CannotRemoveKey ''x''), (constructed True)\<lparr>nEventCalls := 1\<rparr>)"
  using removeKeysFromMap_outcomes[of "[''a'', ''b'']" "[''a'' \<mapsto> ''1'', ''b'' \<mapsto> ''2'', ''c'' \<mapsto> ''3'']"
      "[''a'']" "''x''" "[''b'']" "constructed True"
      "\<lparr>firstRunIOV = 1, lastRunIOV = - 1, startEmpty = True, listNamesRemove = [''x''],
        triggerListsAdd = [], alcarecoReplace = []\<rparr>" Map.empty "BadConfig_CannotRemoveKey ''x''" concat]
    removeKeysFromMap_outcomes[of "[]" "[''a'' \<mapsto> ''1'', ''b'' \<mapsto> ''2'', ''c'' \<mapsto> ''3'']"
      "[''a'']" "''a''" "[''b'']"]
  by (simp add: eraseKeys_def startBits_def constructed_def)

text \<open>
  Claim C5 as stated fails for a key that is listed twice: every listed key is in the
  map, and yet the function throws instead of returning true.
\<close>

theorem removeKeysFromMap_repeated_key:
  "set [''a'', ''a''] \<subseteq> dom [''a'' \<mapsto> ''x''] \<and>
   fst (removeKeysFromMap [''a'', ''a''] [''a'' \<mapsto> ''x'']) = Inl (BadConfig_CannotRemoveKey ''a'') \<and>
   fst (removeKeysFromMap [''a'', ''a''] [''a'' \<mapsto> ''x'']) \<noteq> Inr True"
  by simp

text \<open>
  Claim C6, as amended (what \<^verbatim>\<open>replaceKeysFromMap\<close> does at a missing key). When the
  pairs before some pair have all been renamed and the old key of that pair is not in the
  map as the renames have left it, the function stops there: it returns false, the map
  is the one with exactly the earlier pairs renamed, and one warning naming the pair has
  been logged. This happens whenever an old key is neither in the map at the start nor
  the new key of an earlier pair, and it is the only way for the function to return
  false. Whatever the function returns, a first call of \<^verbatim>\<open>analyze\<close> in which removal
  and insertion have not thrown and the database service is available returns without an
  exception and has written the map that the function left.
\<close>

theorem replaceKeysFromMap_missing_key:
  "(fst (replaceKeysFromMap pre m msgs) \<and> renameKeys pre m (oldKey iSet) = None \<longrightarrow>
      replaceKeysFromMap (pre @ iSet # post) m msgs =
        (False, renameKeys pre m, msgs @ [LogWarning_CannotReplaceKey (oldKey iSet) (newKey iSet)])) \<and>
   (m (oldKey iSet) = None \<and> oldKey iSet \<notin> newKey ` set pre \<longrightarrow>
      \<not> fst (replaceKeysFromMap (pre @ iSet # post) m msgs)) \<and>
   (\<not> fst (replaceKeysFromMap sets m msgs) \<longrightarrow>
      (\<exists>pre' iSet' post'. sets = pre' @ iSet' # post' \<and> fst (replaceKeysFromMap pre' m msgs) \<and>
         renameKeys pre' m (oldKey iSet') = None)) \<and>
   (nEventCalls s = 0 \<and> poolDbAvailable s \<and>
    removeKeysFromMap (listNamesRemove cfg) (startBits cfg setupBits) = (Inr r1, m1) \<and>
    addTriggerLists compose (triggerListsAdd cfg) m1 = (Inr r2, m2) \<longrightarrow>
      fst (analyze compose cfg setupBits s) = None \<and>
      dbWrites (snd (analyze compose cfg setupBits s)) =
        dbWrites s @
        [(fst (snd (replaceKeysFromMap (alcarecoReplace cfg) m2 (messageLog s))), firstRunIOV cfg, recordName)])"
proof (intro conjI impI)
  assume "fst (replaceKeysFromMap pre m msgs) \<and> renameKeys pre m (oldKey iSet) = None"
  then show "replaceKeysFromMap (pre @ iSet # post) m msgs =
        (False, renameKeys pre m, msgs @ [LogWarning_CannotReplaceKey (oldKey iSet) (newKey iSet)])"
    by (simp add: replaceKeysFromMap_stops)
next
  assume "m (oldKey iSet) = None \<and> oldKey iSet \<notin> newKey ` set pre"
  then show "\<not> fst (replaceKeysFromMap (pre @ iSet # post) m msgs)"
    by (simp add: replaceKeysFromMap_absent)
next
  assume "\<not> fst (replaceKeysFromMap sets m msgs)"
  then show "\<exists>pre' iSet' post'. sets = pre' @ iSet' # post' \<and> fst (replaceKeysFromMap pre' m msgs) \<and>
         renameKeys pre' m (oldKey iSet') = None"
    by (rule replaceKeysFromMap_false_split)
next
  assume a: "nEventCalls s = 0 \<and> poolDbAvailable s \<and>
    removeKeysFromMap (listNamesRemove cfg) (startBits cfg setupBits) = (Inr r1, m1) \<and>
    addTriggerLists compose (triggerListsAdd cfg) m1 = (Inr r2, m2)"
  then show "fst (analyze compose cfg setupBits s) = None"
    using analyze_first_call_ok(1)[of s cfg setupBits r1 m1 compose r2 m2] by simp
  show "dbWrites (snd (analyze compose cfg setupBits s)) =
        dbWrites s @
        [(fst (snd (replaceKeysFromMap (alcarecoReplace cfg) m2 (messageLog s))), firstRunIOV cfg, recordName)]"
    using a analyze_first_call_ok(2)[of s cfg setupBits r1 m1 compose r2 m2] by simp
qed

text \<open>
  The theorem at a map with the keys a and b and the pairs a to z, q to r, b to y: the
  function stops at q with a renamed to z and b untouched, and \<^verbatim>\<open>analyze\<close> writes
  that map.
\<close>

theorem replaceKeysFromMap_missing_key_witness:
  "(fst (replaceKeysFromMap [\<lparr>oldKey = ''a'', newKey = ''z''\<rparr>] [''a'' \<mapsto> ''1'', ''b'' \<mapsto> ''2''] []) \<and>
    renameKeys [\<lparr>oldKey = ''a'', newKey = ''z''\<rparr>] [''a'' \<mapsto> ''1'', ''b'' \<mapsto> ''2''] ''q'' = None) \<and>
   replaceKeysFromMap
     ([\<lparr>oldKey = ''a'', newKey = ''z''\<rparr>] @ \<lparr>oldKey = ''q'', newKey = ''r''\<rparr> # [\<lparr>oldKey = ''b'', newKey = ''y''\<rparr>])
     [''a'' \<mapsto> ''1'', ''b'' \<mapsto> ''2''] [] =
     (False, renameKeys [\<lparr>oldKey = ''a'', newKey = ''z''\<rparr>] [''a'' \<mapsto> ''1'', ''b'' \<mapsto> ''2''],
      [LogWarning_CannotReplaceKey ''q'' ''r'']) \<and>
   renameKeys [\<lparr>oldKey = ''a'', newKey = ''z''\<rparr>] [''a'' \<mapsto> ''1'', ''b'' \<mapsto> ''2''] ''z'' = Some ''1'' \<and>
   renameKeys [\<lparr>oldKey = ''a'', newKey = ''z''\<rparr>] [''a'' \<mapsto> ''1'', ''b'' \<mapsto> ''2''] ''b'' = Some ''2'' \<and>
   fst (analyze concat
     \<lparr>firstRunIOV = 1, lastRunIOV = - 1, startEmpty = False, listNamesRemove = [],
      triggerListsAdd = [],
      alcarecoReplace = [\<lparr>oldKey = ''a'', newKey = ''z''\<rparr>, \<lparr>oldKey = ''q'', newKey = ''r''\<rparr>,
                         \<lparr>oldKey = ''b'', newKey = ''y''\<rparr>]\<rparr>
     [''a'' \<mapsto> ''1'', ''b'' \<mapsto> ''2''] (constructed True)) = None \<and>
   dbWrites (snd (analyze concat
     \<lparr>firstRunIOV = 1, lastRunIOV = - 1, startEmpty = False, listNamesRemove = [],
      triggerListsAdd = [],
      alcarecoReplace = [\<lparr>oldKey = ''a'', newKey = ''z''\<rparr>, \<lparr>oldKey = ''q'', newKey = ''r''\<rparr>,
                         \<lparr>oldKey = ''b'', newKey = ''y''\<rparr>]\<rparr>
     [''a'' \<mapsto> ''1'', ''b'' \<mapsto> ''2''] (constructed True))) =
     [(renameKeys [\<lparr>oldKey = ''a'', newKey = ''z''\<rparr>] [''a'' \<mapsto> ''1'', ''b'' \<mapsto> ''2''], 1, recordName)]"
proof -
  let ?m = "[''a'' \<mapsto> ''1'', ''b'' \<mapsto> ''2'']"
  let ?pre = "[\<lparr>oldKey = ''a'', newKey = ''z''\<rparr>]"
  let ?iSet = "\<lparr>oldKey = ''q'', newKey = ''r''\<rparr>"
  let ?post = "[\<lparr>oldKey = ''b'', newKey = ''y''\<rparr>]"
  let ?cfg = "\<lparr>firstRunIOV = 1, lastRunIOV = - 1, startEmpty = False, listNamesRemove = [],
      triggerListsAdd = [], alcarecoReplace = ?pre @ ?iSet # ?post\<rparr>"
  have h1: "fst (replaceKeysFromMap ?pre ?m []) \<and> renameKeys ?pre ?m (oldKey ?iSet) = None"
    by (simp add: replaceKeysFromMap_def renameKeys_def)
  have h2: "nEventCalls (constructed True) = 0 \<and> poolDbAvailable (constructed True) \<and>
    removeKeysFromMap (listNamesRemove ?cfg) (startBits ?cfg ?m) = (Inr True, ?m) \<and>
    addTriggerLists concat (triggerListsAdd ?cfg) ?m = (Inr True, ?m)"
    by (simp add: constructed_def startBits_def)
  have vals: "renameKeys ?pre ?m ''z'' = Some ''1''" "renameKeys ?pre ?m ''b'' = Some ''2''"
    by (simp_all add: renameKeys_def)
  note inst = replaceKeysFromMap_missing_key[of ?pre ?m "[]" ?iSet ?post "[]" "constructed True" ?cfg ?m
      True ?m concat True ?m]
  have stop: "replaceKeysFromMap (?pre @ ?iSet # ?post) ?m [] =
      (False, renameKeys ?pre ?m, [] @ [LogWarning_CannotReplaceKey (oldKey ?iSet) (newKey ?iSet)])"
    using inst h1 by blast
  have wr: "fst (analyze concat ?cfg ?m (constructed True)) = None \<and>
      dbWrites (snd (analyze concat ?cfg ?m (constructed True))) =
        dbWrites (constructed True) @
        [(fst (snd (replaceKeysFromMap (alcarecoReplace ?cfg) ?m (messageLog (constructed True)))),
          firstRunIOV ?cfg, recordName)]"
    using inst h2 by blast
  have ml: "messageLog (constructed True) = []" "dbWrites (constructed True) = []"
    by (simp_all add: constructed_def)
  show ?thesis using h1 vals stop wr ml by simp
qed

text \<open>
  Claim C6 as stated fails when an earlier pair creates the old key of a later one: the
  key b is not in the map, and yet the pairs a to b, b to c are both renamed, the
  function returns true and logs nothing.
\<close>

theorem replaceKeysFromMap_chained_rename:
  "[''a'' \<mapsto> ''x''] ''b'' = None \<and>
   fst (replaceKeysFromMap [\<lparr>oldKey = ''a'', newKey = ''b''\<rparr>, \<lparr>oldKey = ''b'', newKey = ''c''\<rparr>]
          [''a'' \<mapsto> ''x''] []) \<and>
   snd (snd (replaceKeysFromMap [\<lparr>oldKey = ''a'', newKey = ''b''\<rparr>, \<lparr>oldKey = ''b'', newKey = ''c''\<rparr>]
          [''a'' \<mapsto> ''x''] [])) = []"
  by (simp add: replaceKeysFromMap_def)

text \<open>
  The theorem of claim C2 at a map with the keys a and b, removing b, adding the list n
  with two paths and renaming a to z: one write, of the map with z and n only.
\<close>

theorem analyze_first_call_order_witness:
  "nEventCalls (constructed True) = 0 \<and>
   fst (analyze concat
     \<lparr>firstRunIOV = 1, lastRunIOV = - 1, startEmpty = False, listNamesRemove = [''b''],
      triggerListsAdd = [\<lparr>listName = ''n'', hltPaths = [''p1'', ''p2'']\<rparr>],
      alcarecoReplace = [\<lparr>oldKey = ''a'', newKey = ''z''\<rparr>]\<rparr>
     [''a'' \<mapsto> ''1'', ''b'' \<mapsto> ''2''] (constructed True)) = None \<and>
   dbWrites (snd (analyze concat
     \<lparr>firstRunIOV = 1, lastRunIOV = - 1, startEmpty = False, listNamesRemove = [''b''],
      triggerListsAdd = [\<lparr>listName = ''n'', hltPaths = [''p1'', ''p2'']\<rparr>],
      alcarecoReplace = [\<lparr>oldKey = ''a'', newKey = ''z''\<rparr>]\<rparr>
     [''a'' \<mapsto> ''1'', ''b'' \<mapsto> ''2''] (constructed True))) =
     [(renameKeys [\<lparr>oldKey = ''a'', newKey = ''z''\<rparr>]
         (insertLists concat [\<lparr>listName = ''n'', hltPaths = [''p1'', ''p2'']\<rparr>]
            (eraseKeys [''b''] [''a'' \<mapsto> ''1'', ''b'' \<mapsto> ''2''])), 1, recordName)] \<and>
   renameKeys [\<lparr>oldKey = ''a'', newKey = ''z''\<rparr>]
     (insertLists concat [\<lparr>listName = ''n'', hltPaths = [''p1'', ''p2'']\<rparr>]
        (eraseKeys [''b''] [''a'' \<mapsto> ''1'', ''b'' \<mapsto> ''2''])) ''z'' = Some ''1'' \<and>
   renameKeys [\<lparr>oldKey = ''a'', newKey = ''z''\<rparr>]
     (insertLists concat [\<lparr>listName = ''n'', hltPaths = [''p1'', ''p2'']\<rparr>]
        (eraseKeys [''b''] [''a'' \<mapsto> ''1'', ''b'' \<mapsto> ''2''])) ''n'' = Some ''p1p2'' \<and>
   renameKeys [\<lparr>oldKey = ''a'', newKey = ''z''\<rparr>]
     (insertLists concat [\<lparr>listName = ''n'', hltPaths = [''p1'', ''p2'']\<rparr>]
        (eraseKeys [''b''] [''a'' \<mapsto> ''1'', ''b'' \<mapsto> ''2''])) ''b'' = None"
proof -
  let ?m = "[''a'' \<mapsto> ''1'', ''b'' \<mapsto> ''2'']"
  let ?cfg = "\<lparr>firstRunIOV = 1, lastRunIOV = - 1, startEmpty = False, listNamesRemove = [''b''],
      triggerListsAdd = [\<lparr>listName = ''n'', hltPaths = [''p1'', ''p2'']\<rparr>],
      alcarecoReplace = [\<lparr>oldKey = ''a'', newKey = ''z''\<rparr>]\<rparr>"
  let ?m2 = "insertLists concat (triggerListsAdd ?cfg) (eraseKeys (listNamesRemove ?cfg) (startBits ?cfg ?m))"
  have c0: "nEventCalls (constructed True) = 0" by (simp add: constructed_def)
  have pre: "distinct (listNamesRemove ?cfg) \<and>
         set (listNamesRemove ?cfg) \<subseteq> dom (startBits ?cfg ?m) \<and>
         distinct (map listName (triggerListsAdd ?cfg)) \<and>
         set (map listName (triggerListsAdd ?cfg)) \<inter>
           dom (eraseKeys (listNamesRemove ?cfg) (startBits ?cfg ?m)) = {} \<and>
         poolDbAvailable (constructed True)"
    by (simp add: startBits_def eraseKeys_def constructed_def restrict_map_def dom_def)
  have rep: "fst (replaceKeysFromMap (alcarecoReplace ?cfg) ?m2 (messageLog (constructed True)))"
    by (simp add: replaceKeysFromMap_def insertLists_def eraseKeys_def startBits_def)
  note inst = analyze_first_call_order[of "constructed True" concat ?cfg ?m]
  have ok: "fst (analyze concat ?cfg ?m (constructed True)) = None"
    using inst c0 pre by blast
  have wr: "dbWrites (snd (analyze concat ?cfg ?m (constructed True))) =
      dbWrites (constructed True) @ [(renameKeys (alcarecoReplace ?cfg) ?m2, firstRunIOV ?cfg, recordName)]"
    using inst c0 ok rep by blast
  have d0: "dbWrites (constructed True) = []" by (simp add: constructed_def)
  have vals: "renameKeys (alcarecoReplace ?cfg) ?m2 ''z'' = Some ''1''"
    "renameKeys (alcarecoReplace ?cfg) ?m2 ''n'' = Some ''p1p2''"
    "renameKeys (alcarecoReplace ?cfg) ?m2 ''b'' = None"
    by (simp_all add: renameKeys_def insertLists_def eraseKeys_def startBits_def)
  show ?thesis using c0 ok wr d0 vals by (simp add: startBits_def)
qed

section \<open>Properties of the filter\<close>

subsection \<open>Comparisons of floating-point values\<close>

lemma fp_less_NaN: "fp_less x NaN = False"
  by (cases x) simp_all

lemma fp_le_NaN: "fp_le x NaN = False"
  by (cases x) simp_all

lemma fp_le_not_less: "a \<noteq> NaN \<Longrightarrow> b \<noteq> NaN \<Longrightarrow> fp_le a b = (\<not> fp_less b a)"
  by (cases a; cases b) auto

lemma fp_window:
  "x \<noteq> NaN \<Longrightarrow> lo \<noteq> NaN \<Longrightarrow> hi \<noteq> NaN \<Longrightarrow>
   (\<not> (fp_less x lo \<or> fp_less hi x)) = (fp_le lo x \<and> fp_le x hi)"
  by (simp add: fp_le_not_less)

lemma fp_window_imp: "fp_le lo x \<and> fp_le x hi \<Longrightarrow> \<not> (fp_less x lo \<or> fp_less hi x)"
  by (cases lo; cases x; cases hi) auto

subsection \<open>The track loop and the cuts on one candidate\<close>










lemma candidateCuts_after_shape:
  "reachesSeedTime cfg ext ev ref \<Longrightarrow>
   candidateCuts cfg ext ev ref =
     (if \<not> seedTimeCut cfg ext ev ref then FailedSeedTime
      else if word_sless (maxTrkCut cfg) (trackLoop cfg ext ref (tracks ev) 0) then FailedTrackVeto
      else PassedAllCuts)"
  by (auto simp: candidateCuts_def reachesSeedTime_def etaCut_def sMinCut_def sMajCut_def seedTimeCut_def
      momentsOf_def rechitsOf_def seedCrystal_def seedRecHit_def Let_def)




subsection \<open>The cuts and the windows\<close>




subsection \<open>The loop over the candidates\<close>









subsection \<open>The claims on the filter\<close>



text \<open>
  Claim C4, as amended (the eta cut). A candidate is skipped by the eta cut if and only
  if \<^verbatim>\<open>EBOnly\<close> is set and the absolute value of its eta is at least 1.479; with
  \<^verbatim>\<open>EBOnly\<close> unset no candidate is skipped for its eta.
\<close>

theorem etaCut_needs_EBOnly:
  "(candidateCuts cfg ext ev ref = FailedEta) = (EBOnly cfg \<and> etaEB \<le> \<bar>eta ref\<bar>)"
  by (auto simp: candidateCuts_def Let_def)

text \<open>
  Claim C7, as amended (the timing window). For a candidate that is past the eta and
  shape cuts, the timing cut reads the time of the hit that the code gets from
  \<^verbatim>\<open>find\<close>, in the barrel or endcap collection that the eta selects, at the crystal
  that \<^verbatim>\<open>getMaximum\<close> returns for the seed cluster; when the collection holds a hit
  for that crystal, it is that hit. The candidate is skipped by the timing cut if and
  only if \<^verbatim>\<open>time < seedTimeMin\<close> or \<^verbatim>\<open>time > seedTimeMax\<close>, and goes on to the
  track veto otherwise. So when the time and the two bounds are numbers, it goes on if
  and only if \<^verbatim>\<open>seedTimeMin <= time <= seedTimeMax\<close>; and when the time is NaN it goes
  on.
\<close>

theorem seedTime_window:
  "(reachesSeedTime cfg ext ev ref \<longrightarrow>
      (candidateCuts cfg ext ev ref = FailedSeedTime) =
        (fp_less (time (seedRecHit ext ev ref)) (seedTimeMin cfg) \<or>
         fp_less (seedTimeMax cfg) (time (seedRecHit ext ev ref))) \<and>
      (candidateCuts cfg ext ev ref \<in> {FailedTrackVeto, PassedAllCuts}) =
        (\<not> (fp_less (time (seedRecHit ext ev ref)) (seedTimeMin cfg) \<or>
            fp_less (seedTimeMax cfg) (time (seedRecHit ext ev ref))))) \<and>
   (reachesSeedTime cfg ext ev ref \<and> time (seedRecHit ext ev ref) \<noteq> NaN \<and>
    seedTimeMin cfg \<noteq> NaN \<and> seedTimeMax cfg \<noteq> NaN \<longrightarrow>
      (candidateCuts cfg ext ev ref \<in> {FailedTrackVeto, PassedAllCuts}) =
        (fp_le (seedTimeMin cfg) (time (seedRecHit ext ev ref)) \<and>
         fp_le (time (seedRecHit ext ev ref)) (seedTimeMax cfg))) \<and>
   (reachesSeedTime cfg ext ev ref \<and> time (seedRecHit ext ev ref) = NaN \<longrightarrow>
      candidateCuts cfg ext ev ref \<in> {FailedTrackVeto, PassedAllCuts}) \<and>
   (hits (rechitsOf ev ref) (fst (getMaximum ext (superCluster_seed ref) (rechitsOf ev ref))) = Some seedRH \<longrightarrow>
      seedRecHit ext ev ref = seedRH)"
proof (intro conjI impI)
  assume r: "reachesSeedTime cfg ext ev ref"
  show "(candidateCuts cfg ext ev ref = FailedSeedTime) =
        (fp_less (time (seedRecHit ext ev ref)) (seedTimeMin cfg) \<or>
         fp_less (seedTimeMax cfg) (time (seedRecHit ext ev ref)))"
    using r by (auto simp: candidateCuts_after_shape seedTimeCut_def)
  show "(candidateCuts cfg ext ev ref \<in> {FailedTrackVeto, PassedAllCuts}) =
        (\<not> (fp_less (time (seedRecHit ext ev ref)) (seedTimeMin cfg) \<or>
            fp_less (seedTimeMax cfg) (time (seedRecHit ext ev ref))))"
    using r by (auto simp: candidateCuts_after_shape seedTimeCut_def)
next
  assume a: "reachesSeedTime cfg ext ev ref \<and> time (seedRecHit ext ev ref) \<noteq> NaN \<and>
    seedTimeMin cfg \<noteq> NaN \<and> seedTimeMax cfg \<noteq> NaN"
  then have "(\<not> (fp_less (time (seedRecHit ext ev ref)) (seedTimeMin cfg) \<or>
            fp_less (seedTimeMax cfg) (time (seedRecHit ext ev ref)))) =
        (fp_le (seedTimeMin cfg) (time (seedRecHit ext ev ref)) \<and>
         fp_le (time (seedRecHit ext ev ref)) (seedTimeMax cfg))"
    by (intro fp_window) simp_all
  moreover have "(candidateCuts cfg ext ev ref \<in> {FailedTrackVeto, PassedAllCuts}) =
        (\<not> (fp_less (time (seedRecHit ext ev ref)) (seedTimeMin cfg) \<or>
            fp_less (seedTimeMax cfg) (time (seedRecHit ext ev ref))))"
    using a by (auto simp: candidateCuts_after_shape seedTimeCut_def)
  ultimately show "(candidateCuts cfg ext ev ref \<in> {FailedTrackVeto, PassedAllCuts}) =
        (fp_le (seedTimeMin cfg) (time (seedRecHit ext ev ref)) \<and>
         fp_le (time (seedRecHit ext ev ref)) (seedTimeMax cfg))"
    by blast
next
  assume "reachesSeedTime cfg ext ev ref \<and> time (seedRecHit ext ev ref) = NaN"
  then show "candidateCuts cfg ext ev ref \<in> {FailedTrackVeto, PassedAllCuts}"
    by (auto simp: candidateCuts_after_shape seedTimeCut_def fp_less_NaN)
next
  assume "hits (rechitsOf ev ref) (fst (getMaximum ext (superCluster_seed ref) (rechitsOf ev ref))) = Some seedRH"
  then show "seedRecHit ext ev ref = seedRH"
    by (simp add: seedRecHit_def seedCrystal_def derefFind_def)
qed


subsection \<open>The claims on the filter at the example events\<close>

lemmas example_defs = defaultConfig_def exampleTools_def nanMomentTools_def exampleEvent_def
  nanTimeEvent_def endcapCand_def barrelCand_def emptyProduct_def etaEB_def
lemmas cut_defs = etaCut_def sMinCut_def sMajCut_def seedTimeCut_def trackVeto_def
  nearbyTracks_def momentsOf_def rechitsOf_def seedCrystal_def seedRecHit_def derefFind_def
  reachesSeedTime_def passesAllCuts_def sMinInWindow_def sMajInWindow_def seedTimeInWindow_def
  withinAllWindows_def numbersOnly_def



text \<open>
  Claim C7 as stated fails at a seed time that is NaN: the candidate reaches the timing
  cut, its seed hit is found, \<^verbatim>\<open>seedTimeMin <= time <= seedTimeMax\<close> is false, and yet
  the candidate passes the cut, and here all cuts.
\<close>

theorem nan_seed_time_passes:
  "reachesSeedTime defaultConfig exampleTools nanTimeEvent endcapCand \<and>
   hits (rechitsOf nanTimeEvent endcapCand)
     (fst (getMaximum exampleTools (superCluster_seed endcapCand) (rechitsOf nanTimeEvent endcapCand))) =
     Some \<lparr>time = NaN\<rparr> \<and>
   \<not> (fp_le (seedTimeMin defaultConfig) NaN \<and> fp_le NaN (seedTimeMax defaultConfig)) \<and>
   candidateCuts defaultConfig exampleTools nanTimeEvent endcapCand = PassedAllCuts"
  by (simp add: candidateCuts_def cut_defs example_defs Let_def)

text \<open>
  Claim C4 as stated fails under the default configuration, where \<^verbatim>\<open>EBOnly\<close> is
  false: the endcap candidate, with an eta of 2, is not skipped and passes all cuts.
\<close>

theorem endcap_candidate_not_rejected:
  "\<not> EBOnly defaultConfig \<and> etaEB \<le> \<bar>eta endcapCand\<bar> \<and>
   candidateCuts defaultConfig exampleTools exampleEvent endcapCand = PassedAllCuts"
  by (simp add: candidateCuts_def cut_defs example_defs Let_def)

text \<open>
  The theorem of claim C4 at the endcap candidate: skipped for its eta when
  \<^verbatim>\<open>EBOnly\<close> is set, and not under the default configuration.
\<close>

theorem etaCut_needs_EBOnly_witness:
  "candidateCuts (defaultConfig\<lparr>EBOnly := True\<rparr>) exampleTools exampleEvent endcapCand = FailedEta \<and>
   candidateCuts defaultConfig exampleTools exampleEvent endcapCand \<noteq> FailedEta"
  using etaCut_needs_EBOnly[of "defaultConfig\<lparr>EBOnly := True\<rparr>" exampleTools exampleEvent endcapCand]
    etaCut_needs_EBOnly[of defaultConfig exampleTools exampleEvent endcapCand]
  by (simp add: example_defs)

text \<open>
  The theorem of claim C7 at the candidates of the example events: the endcap seed hit,
  at time 2, is in the window of the default configuration, the barrel seed hit, at time
  30, is not, and the candidate whose seed time is NaN goes on to the track veto.
\<close>

theorem seedTime_window_witness:
  "reachesSeedTime defaultConfig exampleTools exampleEvent endcapCand \<and>
   hits (rechitsOf exampleEvent endcapCand)
     (fst (getMaximum exampleTools (superCluster_seed endcapCand) (rechitsOf exampleEvent endcapCand))) =
     Some \<lparr>time = Finite 2\<rparr> \<and>
   seedRecHit exampleTools exampleEvent endcapCand = \<lparr>time = Finite 2\<rparr> \<and>
   candidateCuts defaultConfig exampleTools exampleEvent endcapCand \<in> {FailedTrackVeto, PassedAllCuts} \<and>
   reachesSeedTime defaultConfig exampleTools exampleEvent barrelCand \<and>
   seedRecHit exampleTools exampleEvent barrelCand = \<lparr>time = Finite 30\<rparr> \<and>
   candidateCuts defaultConfig exampleTools exampleEvent barrelCand = FailedSeedTime \<and>
   reachesSeedTime defaultConfig exampleTools nanTimeEvent endcapCand \<and>
   time (seedRecHit exampleTools nanTimeEvent endcapCand) = NaN \<and>
   candidateCuts defaultConfig exampleTools nanTimeEvent endcapCand \<in> {FailedTrackVeto, PassedAllCuts}"
proof -
  have r1: "reachesSeedTime defaultConfig exampleTools exampleEvent endcapCand"
    and r2: "reachesSeedTime defaultConfig exampleTools exampleEvent barrelCand"
    and r3: "reachesSeedTime defaultConfig exampleTools nanTimeEvent endcapCand"
    by (simp_all add: cut_defs example_defs)
  have f1: "hits (rechitsOf exampleEvent endcapCand)
     (fst (getMaximum exampleTools (superCluster_seed endcapCand) (rechitsOf exampleEvent endcapCand))) =
     Some \<lparr>time = Finite 2\<rparr>"
    and f2: "hits (rechitsOf exampleEvent barrelCand)
     (fst (getMaximum exampleTools (superCluster_seed barrelCand) (rechitsOf exampleEvent barrelCand))) =
     Some \<lparr>time = Finite 30\<rparr>"
    by (simp_all add: cut_defs example_defs)
  have h1: "seedRecHit exampleTools exampleEvent endcapCand = \<lparr>time = Finite 2\<rparr>"
    using seedTime_window[of defaultConfig exampleTools exampleEvent endcapCand "\<lparr>time = Finite 2\<rparr>"] f1
    by blast
  have h2: "seedRecHit exampleTools exampleEvent barrelCand = \<lparr>time = Finite 30\<rparr>"
    using seedTime_window[of defaultConfig exampleTools exampleEvent barrelCand "\<lparr>time = Finite 30\<rparr>"] f2
    by blast
  have t3: "time (seedRecHit exampleTools nanTimeEvent endcapCand) = NaN"
    by (simp add: cut_defs example_defs)
  have n1: "time (seedRecHit exampleTools exampleEvent endcapCand) \<noteq> NaN \<and>
      seedTimeMin defaultConfig \<noteq> NaN \<and> seedTimeMax defaultConfig \<noteq> NaN"
    using h1 by (simp add: defaultConfig_def)
  have w1: "fp_le (seedTimeMin defaultConfig) (time (seedRecHit exampleTools exampleEvent endcapCand)) \<and>
      fp_le (time (seedRecHit exampleTools exampleEvent endcapCand)) (seedTimeMax defaultConfig)"
    using h1 by (simp add: defaultConfig_def)
  have w2: "fp_less (time (seedRecHit exampleTools exampleEvent barrelCand)) (seedTimeMin defaultConfig) \<or>
      fp_less (seedTimeMax defaultConfig) (time (seedRecHit exampleTools exampleEvent barrelCand))"
    using h2 by (simp add: defaultConfig_def)
  have c1: "candidateCuts defaultConfig exampleTools exampleEvent endcapCand \<in> {FailedTrackVeto, PassedAllCuts}"
    using seedTime_window[of defaultConfig exampleTools exampleEvent endcapCand] r1 n1 w1 by blast
  have c2: "candidateCuts defaultConfig exampleTools exampleEvent barrelCand = FailedSeedTime"
    using seedTime_window[of defaultConfig exampleTools exampleEvent barrelCand] r2 w2 by blast
  have c3: "candidateCuts defaultConfig exampleTools nanTimeEvent endcapCand \<in> {FailedTrackVeto, PassedAllCuts}"
    using seedTime_window[of defaultConfig exampleTools nanTimeEvent endcapCand] r3 t3 by blast
  show ?thesis using r1 r2 r3 f1 h1 h2 t3 c1 c2 c3 by blast
qed




section \<open>Properties of the script\<close>

text \<open>
  Claim C10 (what the script does). Whatever the sourced file does to the variables,
  running the script adds two events to those before it: the sourcing of
  \<^verbatim>\<open>subtables.sh\<close>, then one call of \<^verbatim>\<open>createSubtables\<close> with four arguments, the
  first of them \<^verbatim>\<open>v3/run3\<close>; when the sourced file leaves the variables alone, the
  other three are the strings assigned at the top of the script. The commands of the
  script other than these two are three assignments of literal strings.
\<close>

theorem script_events:
  "(\<exists>master target tables.
      events (run sourced script st) =
        events st @ [Sourced ''subtables.sh'',
                     Called ''createSubtables'' [''v3/run3'', master, target, tables]]) \<and>
   events (run (\<lambda>file vars. vars) script st) =
     events st @ [Sourced ''subtables.sh'',
                  Called ''createSubtables''
                    [''v3/run3'', ''/dev/CMSSW_10_1_0/HLT'', ''/online/collisions/2018/2e34/v3.6/HLT'',
                     ''online_grun'']] \<and>
   filter (\<lambda>c. \<not> isAssignment c) script =
     [Source ''subtables.sh'',
      SimpleCommand ''createSubtables''
        [Literal ''v3/run3'', Variable ''MASTER'', Variable ''TARGET'', Variable ''TABLES'']] \<and>
   length (filter isAssignment script) = 3"
  by (simp add: script_def)

end
